theory Spec2Isabelle
  imports Main "HOL-Library.Word"
begin

section \<open>PotMatch: the sketch as a state transformer\<close>

text \<open>
  The sketch \<^verbatim>\<open>PotMatch.ino\<close> keeps all of its data in global variables and is driven by
  \<^verbatim>\<open>loop()\<close>, which polls the button, the potentiometer, the tone and melody timers,
  the idle timer, the level timer and the win window, in that order.

  The embedding keeps one record with every global (and the two function-local statics of
  \<^verbatim>\<open>checkMelody\<close>), the hardware the sketch drives (six LED pins, the buzzer, the
  text display) and the millisecond clock. Every function of the sketch becomes a function
  from the record to the record, under the name it has in the sketch.

  \<^item> \<^verbatim>\<open>unsigned long\<close> is a 32-bit word: \<open>-\<close> and \<open>+\<close> wrap around and the
    comparisons are unsigned, as on the board.
  \<^item> \<^verbatim>\<open>int\<close> is \<open>int\<close>. The sketch only counts clicks and tries and subtracts
    analog readings (0..1023) from a target (20..1002); the one product it forms,
    \<^verbatim>\<open>winW*15\<close>, stays below 901 on the level table (lemma \<open>lvl_window_range\<close>).
  \<^item> \<^verbatim>\<open>millis()\<close> reads the field \<open>clock\<close>. The clock is advanced by
    \<^verbatim>\<open>delay\<close> and, between two polls, by the environment (\<open>tick\<close>); within one
    poll every \<^verbatim>\<open>millis()\<close> call that is not separated by a \<^verbatim>\<open>delay\<close> reads
    the same value.
  \<^item> \<^verbatim>\<open>digitalRead\<close>, \<^verbatim>\<open>analogRead\<close> and \<^verbatim>\<open>random(20, 1003)\<close> are inputs
    of the poll (record \<open>inputs\<close>).
\<close>

type_synonym ulong = "32 word"

subsection \<open>Constants and the level table\<close>

abbreviation (input) POT_STABLE_MS :: ulong where "POT_STABLE_MS \<equiv> 500"
abbreviation (input) IDLE_TIMEOUT_MS :: ulong where "IDLE_TIMEOUT_MS \<equiv> 36000"
abbreviation (input) CLICK_WINDOW_MS :: ulong where "CLICK_WINDOW_MS \<equiv> 700"
abbreviation (input) LONG_PRESS_MS :: ulong where "LONG_PRESS_MS \<equiv> 800"
abbreviation (input) WIN_DISPLAY_MS :: ulong where "WIN_DISPLAY_MS \<equiv> 5000"

abbreviation (input) LOW :: int where "LOW \<equiv> 0"
abbreviation (input) HIGH :: int where "HIGH \<equiv> 1"

record LevelConfig =
  timerMs :: ulong
  winWindow :: int
  triesAllowed :: int

text \<open>
  \<^verbatim>\<open>LevelConfig lvl[6]\<close> after \<^verbatim>\<open>initLevels()\<close>. Entry 0 is never assigned and keeps
  the zero initialisation of a global. The sketch indexes the table with
  \<^verbatim>\<open>selectedLevel\<close> only, which stays within 1..5 (lemma \<open>loop_selectedLevel_range\<close>);
  the last branch stands for entry 0.
\<close>

definition lvl :: "int \<Rightarrow> LevelConfig" where
  "lvl i =
     (if i = 1 then \<lparr>timerMs = 0, winWindow = 60, triesAllowed = 0\<rparr>
      else if i = 2 then \<lparr>timerMs = 20000, winWindow = 42, triesAllowed = 0\<rparr>
      else if i = 3 then \<lparr>timerMs = 15000, winWindow = 36, triesAllowed = 0\<rparr>
      else if i = 4 then \<lparr>timerMs = 15000, winWindow = 16, triesAllowed = 5\<rparr>
      else if i = 5 then \<lparr>timerMs = 13000, winWindow = 16, triesAllowed = 3\<rparr>
      else \<lparr>timerMs = 0, winWindow = 0, triesAllowed = 0\<rparr>)"

definition winNotes :: "int list" where
  "winNotes = [1047, 1319, 1568, 2093]"

definition winDur :: "int list" where
  "winDur = [160, 160, 200, 340]"

definition winCount :: int where
  "winCount = int (length winNotes)"

text \<open>The Arduino macro \<^verbatim>\<open>constrain(x, a, b)\<close>.\<close>

definition constrain :: "int \<Rightarrow> int \<Rightarrow> int \<Rightarrow> int" where
  "constrain x a b = (if x < a then a else if x > b then b else x)"

subsection \<open>Decimal text of numbers\<close>

text \<open>\<^verbatim>\<open>String(n)\<close> for an \<^verbatim>\<open>int\<close> and for an \<^verbatim>\<open>unsigned long\<close>.\<close>

definition digit :: "nat \<Rightarrow> char" where
  "digit d = ''0123456789'' ! d"

function decimal :: "nat \<Rightarrow> string" where
  "decimal n = (if n < 10 then [digit n] else decimal (n div 10) @ [digit (n mod 10)])"
  by pat_completeness auto
termination
  by (relation "measure id") auto

declare decimal.simps [simp del]

definition String_int :: "int \<Rightarrow> string" where
  "String_int i = (if i < 0 then CHR ''-'' # decimal (nat (- i)) else decimal (nat i))"

definition String_ulong :: "ulong \<Rightarrow> string" where
  "String_ulong w = decimal (unat w)"

subsection \<open>The state\<close>

record game =
  clock :: ulong             \<comment> \<open>what \<^verbatim>\<open>millis()\<close> returns\<close>
  leds :: "bool list"        \<comment> \<open>the levels of \<^verbatim>\<open>LED_PINS[0..5]\<close>\<close>
  buzzer :: int              \<comment> \<open>frequency sounding on the buzzer pin, 0 when silent\<close>
  lcdOn :: bool              \<comment> \<open>\<^verbatim>\<open>lcd.display()\<close> / \<^verbatim>\<open>lcd.noDisplay()\<close>\<close>
  lcdRow0 :: string          \<comment> \<open>text last written to row 0 of the display\<close>
  lcdRow1 :: string          \<comment> \<open>text last written to row 1 of the display\<close>
  selectedLevel :: int
  unlockedLevel :: int
  currentScreen :: int       \<comment> \<open>0=welcome, 1=levelSelect, 2=inGame, 3=winAnim, 4=sleep\<close>
  lastActivity :: ulong
  lastPotRaw :: int
  potChangedAt :: ulong
  potStable :: bool
  stableValue :: int
  roundTarget :: int
  levelStartedAt :: ulong
  triesLeft :: int
  btnState :: int
  btnLast :: int
  btnChangedAt :: ulong
  btnDownAt :: ulong
  clickCount :: int
  lastClickTime :: ulong
  toneEndAt :: ulong
  toneOnFreq :: int
  melodyIndex :: int
  melodyNoteEnd :: ulong
  melodyPlaying :: bool
  winAnimEnd :: ulong
  winAnimActive :: bool
  lcdLine0 :: string
  lcdLine1 :: string
  lastBlink :: ulong         \<comment> \<open>static local of \<^verbatim>\<open>checkMelody\<close>\<close>
  blinkState :: bool         \<comment> \<open>static local of \<^verbatim>\<open>checkMelody\<close>\<close>

record inputs =
  btnPin :: int              \<comment> \<open>\<^verbatim>\<open>digitalRead(PIN_BTN)\<close>: \<open>LOW\<close> while pressed\<close>
  potRaw :: int              \<comment> \<open>\<^verbatim>\<open>analogRead(PIN_POT)\<close>\<close>
  rndTarget :: int           \<comment> \<open>what \<^verbatim>\<open>random(20, 1003)\<close> returns if it is called\<close>

subsection \<open>Hardware primitives\<close>

definition delay :: "ulong \<Rightarrow> game \<Rightarrow> game" where
  "delay ms s = s\<lparr>clock := clock s + ms\<rparr>"

definition digitalWriteLED :: "nat \<Rightarrow> bool \<Rightarrow> game \<Rightarrow> game" where
  "digitalWriteLED i v s = s\<lparr>leds := (leds s)[i := v]\<rparr>"

text \<open>\<^verbatim>\<open>for (int i=0;i<6;i++) digitalWrite(LED_PINS[i], v)\<close>\<close>

definition writeAllLEDs :: "bool \<Rightarrow> game \<Rightarrow> game" where
  "writeAllLEDs v s = fold (\<lambda>i. digitalWriteLED i v) [0, 1, 2, 3, 4, 5] s"

definition tone :: "int \<Rightarrow> game \<Rightarrow> game" where
  "tone freq s = s\<lparr>buzzer := freq\<rparr>"

definition noTone :: "game \<Rightarrow> game" where
  "noTone s = s\<lparr>buzzer := 0\<rparr>"

subsection \<open>Display cache\<close>

definition lcdPrintIfChanged :: "string \<Rightarrow> string \<Rightarrow> game \<Rightarrow> game" where
  "lcdPrintIfChanged l0 l1 s =
     (if l0 \<noteq> lcdLine0 s \<or> l1 \<noteq> lcdLine1 s
      then s\<lparr>lcdRow0 := l0, lcdRow1 := l1, lcdLine0 := l0, lcdLine1 := l1\<rparr>
      else s)"

subsection \<open>Tone player\<close>

definition startToneNB :: "int \<Rightarrow> ulong \<Rightarrow> game \<Rightarrow> game" where
  "startToneNB freq dur s =
     (if freq \<le> 0 then s
      else (tone freq s)\<lparr>toneOnFreq := freq, toneEndAt := clock s + dur\<rparr>)"

definition checkToneNB :: "game \<Rightarrow> game" where
  "checkToneNB s =
     (if toneEndAt s \<noteq> 0 \<and> clock s \<ge> toneEndAt s
      then (noTone s)\<lparr>toneEndAt := 0, toneOnFreq := 0\<rparr>
      else s)"

definition triggerLoseTone :: "int \<Rightarrow> game \<Rightarrow> game" where
  "triggerLoseTone st s =
     (if st = 0 then startToneNB 160 250 s
      else if st = 1 then startToneNB 220 200 s
      else if st = 2 then startToneNB 300 150 s
      else if st = 3 then startToneNB 600 120 s
      else if st = 4 then startToneNB 800 100 s
      else startToneNB 200 120 s)"

subsection \<open>Scoring a reading\<close>

definition diffToState :: "int \<Rightarrow> int \<Rightarrow> int" where
  "diffToState diff winW =
     (if diff \<le> winW then 5
      else if diff \<le> winW * 2 then 4
      else if diff \<le> winW * 4 then 3
      else if diff \<le> winW * 8 then 2
      else if diff \<le> winW * 15 then 1
      else 0)"

definition setLEDsForState :: "int \<Rightarrow> game \<Rightarrow> game" where
  "setLEDsForState st s =
     (let s0 = writeAllLEDs False s in
      if st = 0 then digitalWriteLED 2 True (digitalWriteLED 1 True (digitalWriteLED 0 True s0))
      else if st = 1 then digitalWriteLED 1 True (digitalWriteLED 0 True s0)
      else if st = 2 then digitalWriteLED 1 True s0
      else if st = 3 then digitalWriteLED 3 True s0
      else if st = 4 then digitalWriteLED 4 True (digitalWriteLED 3 True s0)
      else if st = 5 then digitalWriteLED 5 True (digitalWriteLED 4 True (digitalWriteLED 3 True s0))
      else s0)"

definition stateMsg :: "int \<Rightarrow> string" where
  "stateMsg st =
     (if st = 0 then ''Way off, try harder!''
      else if st = 1 then ''Still far, >-<!''
      else if st = 2 then ''Getting closer :D''
      else if st = 3 then ''Close!!!!''
      else if st = 4 then ''Just a little! YAY''
      else if st = 5 then ''Correct! YAY YAY YAYYY''
      else ''??'')"

subsection \<open>Screens and levels\<close>

definition pickNewTarget :: "int \<Rightarrow> game \<Rightarrow> game" where
  "pickNewTarget r s = s\<lparr>roundTarget := r\<rparr>"

definition stopToWelcome :: "game \<Rightarrow> game" where
  "stopToWelcome s =
     (let s1 = s\<lparr>currentScreen := 0\<rparr>;
          s2 = lcdPrintIfChanged ''Play PotMatch :)'' ''Press to select'' s1
      in s2\<lparr>lastActivity := clock s2\<rparr>)"

definition startLevel :: "int \<Rightarrow> int \<Rightarrow> game \<Rightarrow> game" where
  "startLevel L r s =
     (let s1 = s\<lparr>selectedLevel := constrain L 1 5\<rparr>;
          s2 = pickNewTarget r s1;
          s3 = s2\<lparr>levelStartedAt := clock s2\<rparr>;
          s4 = (if triesAllowed (lvl (selectedLevel s3)) > 0
                then s3\<lparr>triesLeft := triesAllowed (lvl (selectedLevel s3))\<rparr>
                else s3\<lparr>triesLeft := 9999\<rparr>);
          s5 = s4\<lparr>currentScreen := 2\<rparr>;
          l0 = ''Level '' @ String_int (selectedLevel s5);
          l1 = (if timerMs (lvl (selectedLevel s5)) > 0
                then ''Timer:'' @ String_ulong (timerMs (lvl (selectedLevel s5)) div 1000) @ ''s''
                else ''Find the value'');
          s6 = lcdPrintIfChanged l0 l1 s5;
          s7 = s6\<lparr>lastActivity := clock s6\<rparr>;
          s8 = s7\<lparr>potStable := False\<rparr>
      in writeAllLEDs False s8)"

definition acceptStablePot :: "int \<Rightarrow> game \<Rightarrow> game" where
  "acceptStablePot val s =
     (let diff = \<bar>val - roundTarget s\<bar>;
          st = diffToState diff (winWindow (lvl (selectedLevel s)));
          s1 = setLEDsForState st s;
          l0 = ''L'' @ String_int (selectedLevel s1) @ '' '' @
               (if timerMs (lvl (selectedLevel s1)) > 0
                then String_ulong
                       ((timerMs (lvl (selectedLevel s1)) - (clock s1 - levelStartedAt s1) + 500)
                          div 1000) @ ''s ''
                else '''');
          l1 = stateMsg st @ (if st < 5 then '' D:'' @ String_int diff else '' Unlocked'');
          s2 = lcdPrintIfChanged l0 l1 s1
      in if st < 5 then
           (let s3 = triggerLoseTone st s2 in
            if triesAllowed (lvl (selectedLevel s3)) > 0 then
              (let s4 = s3\<lparr>triesLeft := triesLeft s3 - 1\<rparr> in
               if triesLeft s4 \<le> 0 then
                 stopToWelcome
                   (delay 700
                      (triggerLoseTone 0 (lcdPrintIfChanged ''No tries left'' ''Returning...'' s4)))
               else s4)
            else s3)
         else
           (let s3 = s2\<lparr>winAnimActive := True, winAnimEnd := clock s2 + WIN_DISPLAY_MS,
                         melodyPlaying := True, melodyIndex := 0\<rparr>;
                s4 = startToneNB (winNotes ! 0) (of_int (winDur ! 0)) s3;
                s5 = s4\<lparr>melodyNoteEnd := clock s4 + of_int (winDur ! 0)\<rparr>
            in s5\<lparr>lastActivity := clock s5\<rparr>))"

subsection \<open>Potentiometer\<close>

definition updatePot :: "int \<Rightarrow> game \<Rightarrow> game" where
  "updatePot raw s =
     (let now = clock s;
          s1 = (if \<bar>raw - lastPotRaw s\<bar> > 3
                then s\<lparr>potChangedAt := now, potStable := False, lastPotRaw := raw\<rparr>
                else s)
      in if \<not> potStable s1 \<and> now - potChangedAt s1 \<ge> POT_STABLE_MS then
           (let s2 = s1\<lparr>potStable := True, stableValue := lastPotRaw s1, lastActivity := now\<rparr>
            in if currentScreen s2 = 2 then acceptStablePot (stableValue s2) s2 else s2)
         else s1)"

subsection \<open>Melody\<close>

text \<open>The last two statements of \<^verbatim>\<open>checkMelody\<close>: start the note at \<^verbatim>\<open>melodyIndex\<close>.\<close>

definition checkMelody_note :: "ulong \<Rightarrow> game \<Rightarrow> game" where
  "checkMelody_note now s =
     (let s1 = startToneNB (winNotes ! nat (melodyIndex s)) (of_int (winDur ! nat (melodyIndex s))) s
      in s1\<lparr>melodyNoteEnd := now + of_int (winDur ! nat (melodyIndex s1))\<rparr>)"

definition checkMelody :: "game \<Rightarrow> game" where
  "checkMelody s =
     (if \<not> melodyPlaying s then s
      else
        (let now = clock s;
             s1 = (if now - lastBlink s \<ge> 120
                   then (let s' = s\<lparr>lastBlink := now, blinkState := \<not> blinkState s\<rparr>
                         in writeAllLEDs (blinkState s') s')
                   else s)
         in if now \<ge> melodyNoteEnd s1 then
              (let s2 = s1\<lparr>melodyIndex := melodyIndex s1 + 1\<rparr> in
               if melodyIndex s2 \<ge> winCount then
                 (if winAnimActive s2 \<and> clock s2 < winAnimEnd s2
                  then checkMelody_note now (s2\<lparr>melodyIndex := 0\<rparr>)
                  else noTone (s2\<lparr>melodyPlaying := False\<rparr>))
               else checkMelody_note now s2)
            else s1))"

subsection \<open>Idle and sleep\<close>

definition goToSleep :: "game \<Rightarrow> game" where
  "goToSleep s = s\<lparr>lcdOn := False, currentScreen := 4\<rparr>"

definition wakeFromSleep :: "game \<Rightarrow> game" where
  "wakeFromSleep s =
     (let s1 = s\<lparr>lcdOn := True, currentScreen := 0\<rparr>;
          s2 = lcdPrintIfChanged ''Play PotMatch :)'' ''Press to select'' s1
      in s2\<lparr>lastActivity := clock s2\<rparr>)"

definition idleCheck :: "game \<Rightarrow> game" where
  "idleCheck s =
     (if clock s - lastActivity s \<ge> IDLE_TIMEOUT_MS \<and> currentScreen s \<noteq> 4
      then goToSleep s else s)"

subsection \<open>Button\<close>

text \<open>
  \<^verbatim>\<open>handleButton\<close> in three parts, in the order of the sketch: the raw-change tracking
  (\<^verbatim>\<open>if (r != btnLast)\<close>), the debounced edge (\<^verbatim>\<open>if (now - btnChangedAt > 20)\<close>) and
  the click-window expiry. The edge part returns \<open>True\<close> when the sketch leaves
  \<^verbatim>\<open>handleButton\<close> through its \<^verbatim>\<open>return\<close> (waking from sleep), which skips the
  expiry check.
\<close>

definition handleButton_track :: "int \<Rightarrow> game \<Rightarrow> game" where
  "handleButton_track r s =
     (if r \<noteq> btnLast s then s\<lparr>btnChangedAt := clock s, btnLast := r\<rparr> else s)"

definition handleButton_edge :: "ulong \<Rightarrow> int \<Rightarrow> int \<Rightarrow> game \<Rightarrow> bool \<times> game" where
  "handleButton_edge now r rn s =
     (if now - btnChangedAt s > 20 then
        (if r \<noteq> btnState s then
           (let s1 = s\<lparr>btnState := r\<rparr> in
            if btnState s1 = LOW then
              (let s2 = s1\<lparr>btnDownAt := now\<rparr> in
               if currentScreen s2 = 4 then (True, wakeFromSleep s2)
               else if currentScreen s2 = 0 \<or> currentScreen s2 = 1 then
                 (let s3 = s2\<lparr>clickCount := clickCount s2 + 1, lastClickTime := now\<rparr>
                  in (False,
                      lcdPrintIfChanged ''Selecting...''
                        (''Clicks:'' @ String_int (clickCount s3)) s3))
               else (False, s2))
            else
              (let pressDur = now - btnDownAt s1 in
               if pressDur \<ge> LONG_PRESS_MS then
                 (if currentScreen s1 = 1 then
                    (if selectedLevel s1 \<le> unlockedLevel s1
                     then (False, startLevel (selectedLevel s1) rn s1)
                     else (False, lcdPrintIfChanged ''Level locked'' ''Long press denied'' s1))
                  else if currentScreen s1 = 0 then
                    (if now - lastActivity s1 \<ge> 6000 then (False, stopToWelcome s1)
                     else (False, s1))
                  else (False, s1))
               else (False, s1)))
         else (False, s))
      else (False, s))"

definition handleButton_window :: "ulong \<Rightarrow> game \<Rightarrow> game" where
  "handleButton_window now s =
     (if (currentScreen s = 0 \<or> currentScreen s = 1) \<and> clickCount s > 0
         \<and> now - lastClickTime s > CLICK_WINDOW_MS
      then
        (let choice = clickCount s;
             choice = (if choice < 1 then 1 else choice);
             choice = (if choice > 5 then 5 else choice);
             s1 = s\<lparr>selectedLevel := choice, currentScreen := 1\<rparr>;
             l1 = (if selectedLevel s1 \<le> unlockedLevel s1
                   then ''Long press to enter'' else ''Level locked'');
             s2 = lcdPrintIfChanged (''Select Level: '' @ String_int (selectedLevel s1)) l1 s1
         in s2\<lparr>clickCount := 0, lastActivity := now\<rparr>)
      else s)"

definition handleButton :: "int \<Rightarrow> int \<Rightarrow> game \<Rightarrow> game" where
  "handleButton r rn s =
     (let now = clock s;
          s1 = handleButton_track r s
      in case handleButton_edge now r rn s1 of
           (True, s2) \<Rightarrow> s2
         | (False, s2) \<Rightarrow> handleButton_window now s2)"

subsection \<open>The poll\<close>

text \<open>The two blocks at the end of \<^verbatim>\<open>loop()\<close>: the level timer and the win window.\<close>

definition loop_timer :: "ulong \<Rightarrow> game \<Rightarrow> game" where
  "loop_timer now s =
     (if currentScreen s = 2 then
        (let elapsed = now - levelStartedAt s;
             tm = timerMs (lvl (selectedLevel s))
         in if tm > 0 \<and> elapsed \<ge> tm then
              stopToWelcome
                (delay 700 (triggerLoseTone 0 (lcdPrintIfChanged ''Time up!'' ''Returning...'' s)))
            else
              (let remain = (if tm > 0 then (tm - elapsed) div 1000 else 0);
                   l0 = ''L'' @ String_int (selectedLevel s) @ '' '' @
                        (if tm > 0 then String_ulong remain @ ''s '' else ''    '') @
                        ''Tr:'' @ String_int (min (triesLeft s) 99)
               in lcdPrintIfChanged l0 (lcdLine1 s) s))
      else s)"

definition loop_win :: "game \<Rightarrow> game" where
  "loop_win s =
     (if winAnimActive s \<and> clock s \<ge> winAnimEnd s then
        (let s1 = noTone (s\<lparr>winAnimActive := False, melodyPlaying := False\<rparr>);
             s2 = (if selectedLevel s1 = unlockedLevel s1 \<and> unlockedLevel s1 < 5
                   then s1\<lparr>unlockedLevel := unlockedLevel s1 + 1\<rparr> else s1)
         in stopToWelcome s2)
      else s)"

text \<open>The state in which \<^verbatim>\<open>loop()\<close> reaches its win-window block.\<close>

definition loop_body :: "inputs \<Rightarrow> game \<Rightarrow> game" where
  "loop_body inp s =
     (let now = clock s;
          s1 = handleButton (btnPin inp) (rndTarget inp) s;
          s2 = updatePot (potRaw inp) s1;
          s3 = checkToneNB s2;
          s4 = checkMelody s3;
          s5 = idleCheck s4
      in loop_timer now s5)"

definition loop :: "inputs \<Rightarrow> game \<Rightarrow> game" where
  "loop inp s = loop_win (loop_body inp s)"

text \<open>
  The globals as the sketch initialises them, with the clock at 0, and \<^verbatim>\<open>setup()\<close>
  (named \<open>setup_board\<close> here). Its argument is the value \<^verbatim>\<open>random(20, 1003)\<close> returns.
\<close>

definition boot :: game where
  "boot = \<lparr>clock = 0, leds = replicate 6 False, buzzer = 0, lcdOn = True,
           lcdRow0 = '''', lcdRow1 = '''',
           selectedLevel = 1, unlockedLevel = 1, currentScreen = 0, lastActivity = 0,
           lastPotRaw = 0, potChangedAt = 0, potStable = False, stableValue = 0,
           roundTarget = 0, levelStartedAt = 0, triesLeft = 0,
           btnState = HIGH, btnLast = HIGH, btnChangedAt = 0, btnDownAt = 0,
           clickCount = 0, lastClickTime = 0,
           toneEndAt = 0, toneOnFreq = 0,
           melodyIndex = 0, melodyNoteEnd = 0, melodyPlaying = False,
           winAnimEnd = 0, winAnimActive = False,
           lcdLine0 = '''', lcdLine1 = '''',
           lastBlink = 0, blinkState = False\<rparr>"

definition setup_board :: "int \<Rightarrow> game \<Rightarrow> game" where
  "setup_board r s =
     (let s1 = pickNewTarget r s;
          s2 = lcdPrintIfChanged ''Play PotMatch :)'' ''Press to select'' s1
      in s2\<lparr>lastActivity := clock s2\<rparr>)"

text \<open>
  One poll at clock value \<open>t\<close>, and a run of polls: each element gives the time of the
  poll and what the pins and the random generator deliver in it.
\<close>

definition tick :: "ulong \<times> inputs \<Rightarrow> game \<Rightarrow> game" where
  "tick p s = loop (snd p) (s\<lparr>clock := fst p\<rparr>)"

definition run :: "(ulong \<times> inputs) list \<Rightarrow> game \<Rightarrow> game" where
  "run ps s = fold tick ps s"

subsection \<open>Button edges and sample runs\<close>

text \<open>
  The two tests that guard the debounced-edge branch of \<^verbatim>\<open>handleButton\<close>, taken on the
  state the sketch evaluates them in (after the raw-change tracking): the pin has kept its
  level for more than 20 ms and that level differs from the debounced \<^verbatim>\<open>btnState\<close>.
  With \<open>r = LOW\<close> the edge is a press, otherwise a release.
\<close>

definition edgeConfirmed :: "int \<Rightarrow> game \<Rightarrow> bool" where
  "edgeConfirmed r s =
     (clock s - btnChangedAt (handleButton_track r s) > 20
      \<and> r \<noteq> btnState (handleButton_track r s))"

text \<open>
  Sample runs from power-up. A poll at time \<open>t\<close> with the pin at \<open>b\<close> and the
  potentiometer at \<open>p\<close>; the random generator would deliver 900. A click is a press seen at
  \<open>t\<close> and confirmed at \<open>t + 30\<close>, released at \<open>t + 100\<close> and confirmed at \<open>t + 130\<close>.
\<close>

definition poll :: "ulong \<Rightarrow> int \<Rightarrow> int \<Rightarrow> ulong \<times> inputs" where
  "poll t b p = (t, \<lparr>btnPin = b, potRaw = p, rndTarget = 900\<rparr>)"

definition click_at :: "ulong \<Rightarrow> (ulong \<times> inputs) list" where
  "click_at t =
     [poll t LOW 500, poll (t + 30) LOW 500, poll (t + 100) HIGH 500, poll (t + 130) HIGH 500]"

definition power_up :: game where
  "power_up = setup_board 321 boot"

text \<open>One press, held: the click window resolves to level 1 during the hold.\<close>

definition hold_level1 :: "(ulong \<times> inputs) list" where
  "hold_level1 =
     [poll 100 HIGH 500, poll 700 HIGH 500, poll 1000 LOW 500, poll 1030 LOW 500,
      poll 1740 LOW 500, poll 1900 HIGH 500]"

text \<open>The release of that press is confirmed at 1930, 900 ms after the press.\<close>

definition enter_level1 :: "(ulong \<times> inputs) list" where
  "enter_level1 = hold_level1 @ [poll 1930 HIGH 500]"

text \<open>Then the potentiometer is turned to the target and rests there.\<close>

definition win_level1 :: "(ulong \<times> inputs) list" where
  "win_level1 = enter_level1 @ [poll 2000 HIGH 900, poll 2500 HIGH 900]"

text \<open>Two clicks and a third press that is held until the window resolves to level 3.\<close>

definition hold_level3 :: "(ulong \<times> inputs) list" where
  "hold_level3 =
     click_at 1000 @ click_at 1200 @
     [poll 1400 LOW 500, poll 1430 LOW 500, poll 2140 LOW 500, poll 2300 HIGH 500]"

definition three_clicks :: "(ulong \<times> inputs) list" where
  "three_clicks = click_at 1000 @ click_at 1200 @ click_at 1400"

definition seven_clicks :: "(ulong \<times> inputs) list" where
  "seven_clicks =
     click_at 1000 @ click_at 1200 @ click_at 1400 @ click_at 1600 @ click_at 1800 @
     click_at 2000 @ click_at 2200"

text \<open>
  One click selects level 1; then a press is confirmed at 2030, the pin reads high again at
  2100, and the next poll only happens at 2900.
\<close>

definition late_release :: "(ulong \<times> inputs) list" where
  "late_release =
     click_at 1000 @
     [poll 1740 HIGH 500, poll 2000 LOW 500, poll 2030 LOW 500, poll 2100 HIGH 500]"

text \<open>
  The resting potentiometer is accepted as stable at 600; nothing happens for the next 36 s;
  later the button is pressed.
\<close>

definition fall_asleep :: "(ulong \<times> inputs) list" where
  "fall_asleep = [poll 600 HIGH 0, poll 36600 HIGH 0, poll 40000 LOW 0]"

subsection \<open>Prompt polling\<close>

text \<open>
  An assumption on the environment, not part of the sketch: \<^verbatim>\<open>loop()\<close> is entered again at
  most 99 ms after it returned, and \<^verbatim>\<open>digitalRead\<close> delivers \<open>LOW\<close> or \<open>HIGH\<close>.
  \<open>prompt s ps\<close> says so of the polls \<open>ps\<close> run from the state \<open>s\<close>.
\<close>

fun prompt :: "game \<Rightarrow> (ulong \<times> inputs) list \<Rightarrow> bool" where
  "prompt s [] = True"
| "prompt s (p # ps) =
     (fst p - clock s \<le> 99 \<and> (btnPin (snd p) = LOW \<or> btnPin (snd p) = HIGH)
      \<and> prompt (tick p s) ps)"

text \<open>
  The invariant behind the long-press property, kept by every prompt poll. On the in-game
  screen no click is pending. While the button is down with a pending count, on the
  level-select screen the last counted press is the current one and at most 700 ms old; on
  the welcome screen the same holds, or the last activity is recent: it is the current clock
  value, or it lags the unexpired click window by at most 99 ms.
\<close>

definition clickInv :: "game \<Rightarrow> bool" where
  "clickInv s =
     (0 \<le> clickCount s
      \<and> (currentScreen s = 0 \<or> currentScreen s = 1 \<or> currentScreen s = 2 \<or> currentScreen s = 4)
      \<and> (btnState s = LOW \<or> btnState s = HIGH)
      \<and> (currentScreen s = 2 \<longrightarrow> clickCount s = 0)
      \<and> (btnState s = LOW \<and> 0 < clickCount s \<and> currentScreen s = 1 \<longrightarrow>
           lastClickTime s = btnDownAt s \<and> clock s - btnDownAt s \<le> CLICK_WINDOW_MS)
      \<and> (btnState s = LOW \<and> 0 < clickCount s \<and> currentScreen s = 0 \<longrightarrow>
           (lastClickTime s = btnDownAt s \<and> clock s - btnDownAt s \<le> CLICK_WINDOW_MS)
         \<or> clock s = lastActivity s
         \<or> (clock s - lastClickTime s \<le> CLICK_WINDOW_MS
            \<and> unat (clock s - lastActivity s) \<le> unat (clock s - lastClickTime s) + 99)))"

text \<open>
  A run polled every 40 ms: the button is pressed from 1000 to 1840 and reads high again at
  1880. Further runs: a click with the potentiometer at \<open>p\<close>; level 1 is won, its window
  closes at 7500 and unlocks level 2, two clicks with the second one held enter level 2 at
  9330, and the target is reached at 27500; then the level timer runs out at 29400, inside
  the win window, and one click selects level 1 before the window closes.
\<close>

definition dense_hold :: "(ulong \<times> inputs) list" where
  "dense_hold =
     map (\<lambda>k. poll (40 * of_nat k) (if 25 \<le> k \<and> k < 47 then LOW else HIGH) 500) [1..<48]"

definition click_with :: "ulong \<Rightarrow> int \<Rightarrow> (ulong \<times> inputs) list" where
  "click_with t p =
     [poll t LOW p, poll (t + 30) LOW p, poll (t + 100) HIGH p, poll (t + 130) HIGH p]"

definition win_level2 :: "(ulong \<times> inputs) list" where
  "win_level2 =
     win_level1 @ [poll 7500 HIGH 900, poll 7600 HIGH 500, poll 8100 HIGH 500] @
     click_at 8200 @
     [poll 8400 LOW 500, poll 8430 LOW 500, poll 9140 LOW 500, poll 9300 HIGH 500,
      poll 9330 HIGH 500, poll 27000 HIGH 900, poll 27500 HIGH 900]"

definition reselect_in_window :: "(ulong \<times> inputs) list" where
  "reselect_in_window =
     win_level2 @ [poll 29400 HIGH 900] @ click_with 30200 900 @ [poll 30940 HIGH 900]"

section \<open>Properties\<close>

lemma lvl_window_range:
  "0 \<le> winWindow (lvl L) \<and> winWindow (lvl L) * 15 \<le> 900"
  by (simp add: lvl_def)

subsection \<open>The leaf operations as record updates\<close>

lemma writeAllLEDs_upd:
  "writeAllLEDs v s = s\<lparr>leds := (leds s)[0 := v, 1 := v, 2 := v, 3 := v, 4 := v, 5 := v]\<rparr>"
  by (simp add: writeAllLEDs_def digitalWriteLED_def)

lemma setLEDsForState_upd:
  "setLEDsForState st s =
     s\<lparr>leds :=
         (let l = (leds s)[0 := False, 1 := False, 2 := False, 3 := False, 4 := False, 5 := False]
          in if st = 0 then l[0 := True, 1 := True, 2 := True]
             else if st = 1 then l[0 := True, 1 := True]
             else if st = 2 then l[1 := True]
             else if st = 3 then l[3 := True]
             else if st = 4 then l[3 := True, 4 := True]
             else if st = 5 then l[3 := True, 4 := True, 5 := True]
             else l)\<rparr>"
  by (simp add: setLEDsForState_def writeAllLEDs_upd digitalWriteLED_def Let_def)

lemma lcdPrintIfChanged_upd:
  "lcdPrintIfChanged l0 l1 s =
     s\<lparr>lcdRow0 := (if l0 \<noteq> lcdLine0 s \<or> l1 \<noteq> lcdLine1 s then l0 else lcdRow0 s),
       lcdRow1 := (if l0 \<noteq> lcdLine0 s \<or> l1 \<noteq> lcdLine1 s then l1 else lcdRow1 s),
       lcdLine0 := l0, lcdLine1 := l1\<rparr>"
  by (simp add: lcdPrintIfChanged_def)

lemma startToneNB_upd:
  "0 < freq \<Longrightarrow>
   startToneNB freq dur s = s\<lparr>buzzer := freq, toneOnFreq := freq, toneEndAt := clock s + dur\<rparr>"
  by (simp add: startToneNB_def tone_def)

lemma triggerLoseTone_upd:
  "triggerLoseTone st s =
     (let f = (if st = 0 then 160 else if st = 1 then 220 else if st = 2 then 300
               else if st = 3 then 600 else if st = 4 then 800 else 200);
          d = (if st = 0 then 250 else if st = 1 then 200 else if st = 2 then 150
               else if st = 3 then 120 else if st = 4 then 100 else 120)
      in s\<lparr>buzzer := f, toneOnFreq := f, toneEndAt := clock s + d\<rparr>)"
  by (simp add: triggerLoseTone_def startToneNB_upd)

lemmas leaf_upd = delay_def digitalWriteLED_def writeAllLEDs_upd tone_def noTone_def
  setLEDsForState_upd lcdPrintIfChanged_upd triggerLoseTone_upd pickNewTarget_def

subsection \<open>Closeness bands\<close>

text \<open>
  Claim C4. For a win window \<open>w \<ge> 0\<close> the band of a difference \<open>d\<close> is fixed by the
  thresholds \<open>w\<close>, \<open>2w\<close>, \<open>4w\<close>, \<open>8w\<close>, \<open>15w\<close>, the first one that \<open>d\<close> does not
  exceed deciding: band 5 up to \<open>w\<close>, band 4 above \<open>w\<close> up to \<open>2w\<close>, band 3 up to \<open>4w\<close>,
  band 2 up to \<open>8w\<close>, band 1 up to \<open>15w\<close>, band 0 above. A difference of exactly \<open>w\<close>
  scores band 5, and \<open>w + 1\<close> scores band 4 whenever \<open>w + 1 \<le> 2w\<close>. Every window of the
  level table is non-negative (\<open>lvl_window_range\<close>).
\<close>

theorem diffToState_bands:
  assumes "0 \<le> w"
  shows "(diffToState d w = 5 \<longleftrightarrow> d \<le> w)
       \<and> (diffToState d w = 4 \<longleftrightarrow> w < d \<and> d \<le> 2 * w)
       \<and> (diffToState d w = 3 \<longleftrightarrow> 2 * w < d \<and> d \<le> 4 * w)
       \<and> (diffToState d w = 2 \<longleftrightarrow> 4 * w < d \<and> d \<le> 8 * w)
       \<and> (diffToState d w = 1 \<longleftrightarrow> 8 * w < d \<and> d \<le> 15 * w)
       \<and> (diffToState d w = 0 \<longleftrightarrow> 15 * w < d)
       \<and> diffToState w w = 5
       \<and> (w + 1 \<le> 2 * w \<longrightarrow> diffToState (w + 1) w = 4)"
  using assms by (auto simp add: diffToState_def)

theorem diffToState_bands_witness:
  "(0::int) \<le> 16 \<and> diffToState 16 16 = 5
   \<and> (16 + 1 \<le> 2 * (16::int)) \<and> diffToState (16 + 1) 16 = 4
   \<and> diffToState 32 16 = 4 \<and> diffToState 33 16 = 3
   \<and> diffToState 64 16 = 3 \<and> diffToState 65 16 = 2
   \<and> diffToState 128 16 = 2 \<and> diffToState 129 16 = 1
   \<and> diffToState 240 16 = 1 \<and> diffToState 241 16 = 0"
  using diffToState_bands [of 16 16] diffToState_bands [of 16 32] diffToState_bands [of 16 33]
    diffToState_bands [of 16 64] diffToState_bands [of 16 65] diffToState_bands [of 16 128]
    diffToState_bands [of 16 129] diffToState_bands [of 16 240] diffToState_bands [of 16 241]
  by simp

subsection \<open>Sessions: entering a level and accepting readings\<close>

lemma startLevel_fields:
  "selectedLevel (startLevel L r s) = constrain L 1 5"
  "roundTarget (startLevel L r s) = r"
  "currentScreen (startLevel L r s) = 2"
  "clock (startLevel L r s) = clock s"
  "levelStartedAt (startLevel L r s) = clock s"
  "lastActivity (startLevel L r s) = clock s"
  "potStable (startLevel L r s) = False"
  "triesLeft (startLevel L r s) =
     (if 0 < triesAllowed (lvl (constrain L 1 5)) then triesAllowed (lvl (constrain L 1 5)) else 9999)"
  "unlockedLevel (startLevel L r s) = unlockedLevel s"
  "clickCount (startLevel L r s) = clickCount s"
  by (simp_all add: startLevel_def leaf_upd Let_def)

lemma acceptStablePot_frame:
  "selectedLevel (acceptStablePot v s) = selectedLevel s"
  "roundTarget (acceptStablePot v s) = roundTarget s"
  "unlockedLevel (acceptStablePot v s) = unlockedLevel s"
  "clickCount (acceptStablePot v s) = clickCount s"
  by (simp_all add: acceptStablePot_def stopToWelcome_def leaf_upd startToneNB_upd winNotes_def Let_def)

lemma accept_limited_more:
  assumes "diffToState \<bar>v - roundTarget s\<bar> (winWindow (lvl (selectedLevel s))) < 5"
      and "0 < triesAllowed (lvl (selectedLevel s))" and "1 < triesLeft s"
  shows "currentScreen (acceptStablePot v s) = currentScreen s"
    and "triesLeft (acceptStablePot v s) = triesLeft s - 1"
    and "clock (acceptStablePot v s) = clock s"
  using assms by (simp_all add: acceptStablePot_def leaf_upd Let_def)

lemma accept_limited_last:
  assumes "diffToState \<bar>v - roundTarget s\<bar> (winWindow (lvl (selectedLevel s))) < 5"
      and "0 < triesAllowed (lvl (selectedLevel s))" and "triesLeft s \<le> 1"
  shows "currentScreen (acceptStablePot v s) = 0"
    and "clock (acceptStablePot v s) = clock s + 700"
    and "lcdLine0 (acceptStablePot v s) = ''Play PotMatch :)''"
  using assms by (simp_all add: acceptStablePot_def stopToWelcome_def leaf_upd Let_def)

lemma accept_unlimited:
  assumes "triesAllowed (lvl (selectedLevel s)) \<le> 0"
  shows "currentScreen (acceptStablePot v s) = currentScreen s"
    and "triesLeft (acceptStablePot v s) = triesLeft s"
    and "clock (acceptStablePot v s) = clock s"
  using assms by (simp_all add: acceptStablePot_def leaf_upd startToneNB_upd winNotes_def Let_def)

lemma level4_session:
  assumes "\<forall>v \<in> set vs. diffToState \<bar>v - r\<bar> (winWindow (lvl 4)) < 5" and "length vs < 5"
  shows "currentScreen (fold acceptStablePot vs (startLevel 4 r s)) = 2
       \<and> triesLeft (fold acceptStablePot vs (startLevel 4 r s)) = 5 - int (length vs)
       \<and> selectedLevel (fold acceptStablePot vs (startLevel 4 r s)) = 4
       \<and> roundTarget (fold acceptStablePot vs (startLevel 4 r s)) = r
       \<and> clock (fold acceptStablePot vs (startLevel 4 r s)) = clock s"
  using assms
proof (induction vs rule: rev_induct)
  case Nil
  show ?case by (simp add: startLevel_fields constrain_def lvl_def)
next
  case (snoc v vs)
  let ?s = "fold acceptStablePot vs (startLevel 4 r s)"
  from snoc have ih: "currentScreen ?s = 2" "triesLeft ?s = 5 - int (length vs)"
    "selectedLevel ?s = 4" "roundTarget ?s = r" "clock ?s = clock s"
    by simp_all
  from snoc.prems have nw: "diffToState \<bar>v - roundTarget ?s\<bar> (winWindow (lvl (selectedLevel ?s))) < 5"
    by (simp add: ih)
  have lim: "0 < triesAllowed (lvl (selectedLevel ?s))" by (simp add: ih lvl_def)
  from snoc.prems have more: "1 < triesLeft ?s" by (simp add: ih)
  show ?case
    using accept_limited_more [OF nw lim more] ih
    by (simp add: acceptStablePot_frame)
qed

text \<open>
  Claim C5. A session entered on level 4 (five tries) that accepts non-winning readings one
  after the other: after fewer than five of them the screen is still inGame and the try
  counter has dropped by one per reading; the fifth one takes the lose-by-tries path (the
  700 ms pause, then the welcome screen).
\<close>

theorem level4_five_tries:
  assumes "\<forall>v \<in> set vs. diffToState \<bar>v - r\<bar> (winWindow (lvl 4)) < 5"
  shows "(length vs < 5 \<longrightarrow>
            currentScreen (fold acceptStablePot vs (startLevel 4 r s)) = 2
          \<and> triesLeft (fold acceptStablePot vs (startLevel 4 r s)) = 5 - int (length vs))
       \<and> (length vs = 5 \<longrightarrow>
            currentScreen (fold acceptStablePot vs (startLevel 4 r s)) = 0
          \<and> clock (fold acceptStablePot vs (startLevel 4 r s)) = clock s + 700)"
proof (intro conjI impI)
  assume "length vs < 5"
  with assms level4_session [of vs r s]
  show "currentScreen (fold acceptStablePot vs (startLevel 4 r s)) = 2" by simp
next
  assume "length vs < 5"
  with assms level4_session [of vs r s]
  show "triesLeft (fold acceptStablePot vs (startLevel 4 r s)) = 5 - int (length vs)" by simp
next
  assume len: "length vs = 5"
  then obtain ws v where vs: "vs = ws @ [v]" and lw: "length ws = 4"
    by (cases vs rule: rev_cases) auto
  let ?s = "fold acceptStablePot ws (startLevel 4 r s)"
  from assms vs have "\<forall>v \<in> set ws. diffToState \<bar>v - r\<bar> (winWindow (lvl 4)) < 5" by simp
  from level4_session [OF this, of s] lw
  have ih: "currentScreen ?s = 2" "triesLeft ?s = 1" "selectedLevel ?s = 4" "roundTarget ?s = r"
    "clock ?s = clock s"
    by simp_all
  from assms vs have nw: "diffToState \<bar>v - roundTarget ?s\<bar> (winWindow (lvl (selectedLevel ?s))) < 5"
    by (simp add: ih)
  have lim: "0 < triesAllowed (lvl (selectedLevel ?s))" by (simp add: ih lvl_def)
  have last: "triesLeft ?s \<le> 1" by (simp add: ih)
  show "currentScreen (fold acceptStablePot vs (startLevel 4 r s)) = 0"
    using accept_limited_last(1) [OF nw lim last] by (simp add: vs)
  show "clock (fold acceptStablePot vs (startLevel 4 r s)) = clock s + 700"
    using accept_limited_last(2) [OF nw lim last] by (simp add: vs ih)
qed


theorem level4_five_tries_witness:
  "diffToState \<bar>100 - 500\<bar> (winWindow (lvl 4)) < 5
   \<and> diffToState \<bar>120 - 500\<bar> (winWindow (lvl 4)) < 5
   \<and> diffToState \<bar>140 - 500\<bar> (winWindow (lvl 4)) < 5
   \<and> diffToState \<bar>160 - 500\<bar> (winWindow (lvl 4)) < 5
   \<and> diffToState \<bar>180 - 500\<bar> (winWindow (lvl 4)) < 5
   \<and> length [100, 120, 140, 160 :: int] < 5
   \<and> currentScreen (fold acceptStablePot [100, 120, 140, 160] (startLevel 4 500 boot)) = 2
   \<and> triesLeft (fold acceptStablePot [100, 120, 140, 160] (startLevel 4 500 boot)) = 1
   \<and> length [100, 120, 140, 160, 180 :: int] = 5
   \<and> currentScreen (fold acceptStablePot [100, 120, 140, 160, 180] (startLevel 4 500 boot)) = 0"
proof -
  have h4: "\<forall>v \<in> set [100, 120, 140, 160]. diffToState \<bar>v - 500\<bar> (winWindow (lvl 4)) < 5"
    by (simp add: diffToState_def lvl_def)
  have h5: "\<forall>v \<in> set [100, 120, 140, 160, 180]. diffToState \<bar>v - 500\<bar> (winWindow (lvl 4)) < 5"
    by (simp add: diffToState_def lvl_def)
  show ?thesis
    using h5 level4_five_tries [OF h4, of boot] level4_five_tries [OF h5, of boot]
    by simp
qed

text \<open>
  Claim C10. A session entered on a level whose table entry allows 0 tries (after the clamp
  of \<^verbatim>\<open>startLevel\<close> these are the levels 1 to 3) starts with the try counter at 9999;
  whatever readings are accepted afterwards, and however many, the counter stays at 9999, the
  screen stays inGame and the clock is not advanced, so the lose-by-tries branch with its
  700 ms pause is never taken.
\<close>

theorem unlimited_tries_never_lose:
  assumes "triesAllowed (lvl (constrain L 1 5)) = 0"
  shows "constrain L 1 5 \<le> 3
       \<and> triesLeft (startLevel L r s) = 9999
       \<and> triesLeft (fold acceptStablePot vs (startLevel L r s)) = 9999
       \<and> currentScreen (fold acceptStablePot vs (startLevel L r s)) = 2
       \<and> clock (fold acceptStablePot vs (startLevel L r s)) = clock s"
proof -
  have lv: "constrain L 1 5 \<le> 3"
    using assms by (simp add: constrain_def lvl_def split: if_splits)
  have inv: "triesLeft (fold acceptStablePot vs (startLevel L r s)) = 9999
       \<and> currentScreen (fold acceptStablePot vs (startLevel L r s)) = 2
       \<and> clock (fold acceptStablePot vs (startLevel L r s)) = clock s
       \<and> selectedLevel (fold acceptStablePot vs (startLevel L r s)) = constrain L 1 5"
  proof (induction vs rule: rev_induct)
    case Nil
    show ?case using assms by (simp add: startLevel_fields)
  next
    case (snoc v vs)
    let ?s = "fold acceptStablePot vs (startLevel L r s)"
    from snoc assms have "triesAllowed (lvl (selectedLevel ?s)) \<le> 0" by simp
    from accept_unlimited [OF this, of v] snoc show ?case
      by (simp add: acceptStablePot_frame)
  qed
  have "triesLeft (startLevel L r s) = 9999"
    using assms by (simp add: startLevel_fields)
  with lv inv show ?thesis by simp
qed

theorem unlimited_tries_never_lose_witness:
  "triesAllowed (lvl (constrain 2 1 5)) = 0
   \<and> constrain 2 1 5 \<le> 3
   \<and> triesLeft (startLevel 2 500 boot) = 9999
   \<and> triesLeft (fold acceptStablePot [0, 1000, 0, 1000, 0, 1000] (startLevel 2 500 boot)) = 9999
   \<and> currentScreen (fold acceptStablePot [0, 1000, 0, 1000, 0, 1000] (startLevel 2 500 boot)) = 2"
proof -
  have h: "triesAllowed (lvl (constrain 2 1 5)) = 0"
    by (simp add: constrain_def lvl_def)
  show ?thesis
    using h unlimited_tries_never_lose [OF h, of 500 boot "[0, 1000, 0, 1000, 0, 1000]"]
    by simp
qed

subsection \<open>What each operation leaves alone\<close>

lemmas handleButton_defs = handleButton_def handleButton_track_def handleButton_edge_def
  handleButton_window_def wakeFromSleep_def stopToWelcome_def

lemma handleButton_frame:
  "unlockedLevel (handleButton r rn s) = unlockedLevel s"
  "clock (handleButton r rn s) = clock s"
  by (simp_all add: handleButton_defs startLevel_fields leaf_upd Let_def split: prod.splits)

lemma updatePot_frame:
  "unlockedLevel (updatePot raw s) = unlockedLevel s"
  "selectedLevel (updatePot raw s) = selectedLevel s"
  "clickCount (updatePot raw s) = clickCount s"
  "lcdOn (updatePot raw s) = lcdOn s"
  by (simp_all add: updatePot_def acceptStablePot_def stopToWelcome_def leaf_upd startToneNB_upd winNotes_def Let_def)

lemma updatePot_not_inGame:
  assumes "currentScreen s \<noteq> 2"
  shows "currentScreen (updatePot raw s) = currentScreen s"
    and "clock (updatePot raw s) = clock s"
    and "lastActivity (updatePot raw s) = lastActivity s \<or> lastActivity (updatePot raw s) = clock s"
  using assms by (simp_all add: updatePot_def Let_def)

lemma checkToneNB_frame:
  "unlockedLevel (checkToneNB s) = unlockedLevel s"
  "selectedLevel (checkToneNB s) = selectedLevel s"
  "clickCount (checkToneNB s) = clickCount s"
  "currentScreen (checkToneNB s) = currentScreen s"
  "clock (checkToneNB s) = clock s"
  "lastActivity (checkToneNB s) = lastActivity s"
  "lcdOn (checkToneNB s) = lcdOn s"
  by (simp_all add: checkToneNB_def leaf_upd)

lemma checkMelody_frame:
  "unlockedLevel (checkMelody s) = unlockedLevel s"
  "selectedLevel (checkMelody s) = selectedLevel s"
  "clickCount (checkMelody s) = clickCount s"
  "currentScreen (checkMelody s) = currentScreen s"
  "clock (checkMelody s) = clock s"
  "lastActivity (checkMelody s) = lastActivity s"
  "lcdOn (checkMelody s) = lcdOn s"
  by (simp_all add: checkMelody_def checkMelody_note_def startToneNB_def leaf_upd Let_def)

lemma idleCheck_frame:
  "unlockedLevel (idleCheck s) = unlockedLevel s"
  "selectedLevel (idleCheck s) = selectedLevel s"
  "clickCount (idleCheck s) = clickCount s"
  "clock (idleCheck s) = clock s"
  "lastActivity (idleCheck s) = lastActivity s"
  by (simp_all add: idleCheck_def goToSleep_def)

lemma loop_timer_frame:
  "unlockedLevel (loop_timer now s) = unlockedLevel s"
  "selectedLevel (loop_timer now s) = selectedLevel s"
  "clickCount (loop_timer now s) = clickCount s"
  "lcdOn (loop_timer now s) = lcdOn s"
  by (simp_all add: loop_timer_def stopToWelcome_def leaf_upd Let_def)

lemma loop_timer_not_inGame:
  "currentScreen s \<noteq> 2 \<Longrightarrow> loop_timer now s = s"
  by (simp add: loop_timer_def)

lemma loop_win_fields:
  "unlockedLevel (loop_win s) =
     (if winAnimActive s \<and> winAnimEnd s \<le> clock s \<and> selectedLevel s = unlockedLevel s
         \<and> unlockedLevel s < 5
      then unlockedLevel s + 1 else unlockedLevel s)"
  "currentScreen (loop_win s) =
     (if winAnimActive s \<and> winAnimEnd s \<le> clock s then 0 else currentScreen s)"
  "selectedLevel (loop_win s) = selectedLevel s"
  "clickCount (loop_win s) = clickCount s"
  "lcdOn (loop_win s) = lcdOn s"
  by (simp_all add: loop_win_def stopToWelcome_def leaf_upd Let_def)

lemma loop_body_unlockedLevel:
  "unlockedLevel (loop_body inp s) = unlockedLevel s"
  by (simp add: loop_body_def Let_def loop_timer_frame idleCheck_frame checkMelody_frame
      checkToneNB_frame updatePot_frame handleButton_frame)

lemma loop_unlockedLevel_le:
  "unlockedLevel s \<le> 5 \<Longrightarrow> unlockedLevel (loop inp s) \<le> 5"
  by (simp add: loop_def loop_win_fields loop_body_unlockedLevel)

lemma run_unlockedLevel_le:
  "unlockedLevel s \<le> 5 \<Longrightarrow> unlockedLevel (run ps s) \<le> 5"
proof (induction ps arbitrary: s)
  case Nil
  then show ?case by (simp add: run_def)
next
  case (Cons p ps)
  have "unlockedLevel (tick p s) \<le> 5"
    using Cons.prems loop_unlockedLevel_le [of "s\<lparr>clock := fst p\<rparr>" "snd p"]
    by (simp add: tick_def)
  from Cons.IH [OF this] show ?case by (simp add: run_def)
qed

subsection \<open>Unlocking the next level\<close>

text \<open>
  One poll raises \<open>unlockedLevel\<close> by exactly 1 when it reaches its win-window block with
  the window open and elapsed, \<^verbatim>\<open>selectedLevel\<close> equal to \<open>unlockedLevel\<close> and
  \<open>unlockedLevel\<close> below 5, and leaves it unchanged otherwise. The comparison reads the
  global \<^verbatim>\<open>selectedLevel\<close> as it is when the window closes. A value of at most 5 stays at
  most 5.
\<close>

lemma loop_unlockedLevel:
  "unlockedLevel (loop inp s) =
     (if winAnimActive (loop_body inp s) \<and> winAnimEnd (loop_body inp s) \<le> clock (loop_body inp s)
         \<and> selectedLevel (loop_body inp s) = unlockedLevel s \<and> unlockedLevel s < 5
      then unlockedLevel s + 1 else unlockedLevel s)
   \<and> (unlockedLevel s \<le> 5 \<longrightarrow> unlockedLevel (loop inp s) \<le> 5)
   \<and> unlockedLevel (run ps (setup_board r boot)) \<le> 5"
proof -
  have "unlockedLevel (setup_board r boot) \<le> 5"
    by (simp add: setup_board_def boot_def leaf_upd Let_def)
  from run_unlockedLevel_le [OF this] loop_unlockedLevel_le [of s inp]
  show ?thesis
    by (simp add: loop_def loop_win_fields loop_body_unlockedLevel)
qed


subsection \<open>Sleeping and waking\<close>

lemma edgeConfirmed_iff:
  "edgeConfirmed r s \<longleftrightarrow> r = btnLast s \<and> 20 < clock s - btnChangedAt s \<and> r \<noteq> btnState s"
  by (simp add: edgeConfirmed_def handleButton_track_def)

lemma edgeConfirmed_track:
  "edgeConfirmed r s \<Longrightarrow> handleButton_track r s = s"
  by (simp add: edgeConfirmed_iff handleButton_track_def)

lemma handleButton_wake:
  assumes "currentScreen s = 4" and "edgeConfirmed LOW s"
  shows "currentScreen (handleButton LOW rn s) = 0"
    and "lcdOn (handleButton LOW rn s)"
    and "lastActivity (handleButton LOW rn s) = clock s"
  using assms
  by (simp_all add: edgeConfirmed_iff handleButton_def handleButton_track_def handleButton_edge_def
      wakeFromSleep_def leaf_upd Let_def)

lemma idleCheck_recent:
  "lastActivity s = clock s \<Longrightarrow> idleCheck s = s"
  by (simp add: idleCheck_def)

lemma loop_after_wake:
  assumes "currentScreen s = 4" and "edgeConfirmed LOW s"
  shows "currentScreen (loop \<lparr>btnPin = LOW, potRaw = p, rndTarget = rn\<rparr> s) = 0"
proof -
  let ?s1 = "handleButton LOW rn s"
  let ?s2 = "updatePot p ?s1"
  let ?s4 = "checkMelody (checkToneNB ?s2)"
  have s1: "currentScreen ?s1 = 0" "lastActivity ?s1 = clock s" "clock ?s1 = clock s"
    using handleButton_wake [OF assms] by (simp_all add: handleButton_frame)
  then have ne: "currentScreen ?s1 \<noteq> 2" by simp
  have s2: "currentScreen ?s2 = 0" "clock ?s2 = clock s" "lastActivity ?s2 = clock s"
    using updatePot_not_inGame [OF ne, of p] s1 by auto
  have s4: "currentScreen ?s4 = 0" "lastActivity ?s4 = clock ?s4"
    using s2 by (simp_all add: checkMelody_frame checkToneNB_frame)
  have "loop_body \<lparr>btnPin = LOW, potRaw = p, rndTarget = rn\<rparr> s = ?s4"
    using s4 by (simp add: loop_body_def Let_def idleCheck_recent loop_timer_not_inGame)
  then show ?thesis
    using s4 by (simp add: loop_def loop_win_fields)
qed

text \<open>
  Claim C9. On any screen but sleep, once the clock is 36000 ms or more past the last
  recorded activity the idle check switches to the sleep screen and turns the display off.
  On the sleep screen a confirmed press always leads to the welcome screen with the display
  on, both when \<^verbatim>\<open>handleButton\<close> returns and at the end of that poll; the state holds
  no record of the screen shown before sleeping.
\<close>

theorem idle_sleep_and_wake:
  "(currentScreen s \<noteq> 4 \<and> IDLE_TIMEOUT_MS \<le> clock s - lastActivity s \<longrightarrow>
      currentScreen (idleCheck s) = 4 \<and> \<not> lcdOn (idleCheck s))
   \<and> (currentScreen s = 4 \<and> edgeConfirmed LOW s \<longrightarrow>
        currentScreen (handleButton LOW rn s) = 0 \<and> lcdOn (handleButton LOW rn s)
      \<and> currentScreen (loop \<lparr>btnPin = LOW, potRaw = p, rndTarget = rn\<rparr> s) = 0)"
  using handleButton_wake [of s rn] loop_after_wake [of s p rn]
  by (simp add: idleCheck_def goToSleep_def)

theorem idle_sleep_and_wake_witness:
  "currentScreen ((run [poll 600 HIGH 0] power_up)\<lparr>clock := 36600\<rparr>) \<noteq> 4
   \<and> IDLE_TIMEOUT_MS \<le> clock ((run [poll 600 HIGH 0] power_up)\<lparr>clock := 36600\<rparr>)
                         - lastActivity ((run [poll 600 HIGH 0] power_up)\<lparr>clock := 36600\<rparr>)
   \<and> currentScreen (idleCheck ((run [poll 600 HIGH 0] power_up)\<lparr>clock := 36600\<rparr>)) = 4
   \<and> \<not> lcdOn (idleCheck ((run [poll 600 HIGH 0] power_up)\<lparr>clock := 36600\<rparr>))
   \<and> currentScreen ((run fall_asleep power_up)\<lparr>clock := 40030\<rparr>) = 4
   \<and> edgeConfirmed LOW ((run fall_asleep power_up)\<lparr>clock := 40030\<rparr>)
   \<and> currentScreen (handleButton LOW 900 ((run fall_asleep power_up)\<lparr>clock := 40030\<rparr>)) = 0
   \<and> currentScreen (loop \<lparr>btnPin = LOW, potRaw = 0, rndTarget = 900\<rparr>
                         ((run fall_asleep power_up)\<lparr>clock := 40030\<rparr>)) = 0"
proof -
  have a: "currentScreen ((run [poll 600 HIGH 0] power_up)\<lparr>clock := 36600\<rparr>) \<noteq> 4"
    by code_simp
  have b: "IDLE_TIMEOUT_MS \<le> clock ((run [poll 600 HIGH 0] power_up)\<lparr>clock := 36600\<rparr>)
                         - lastActivity ((run [poll 600 HIGH 0] power_up)\<lparr>clock := 36600\<rparr>)"
    by code_simp
  have c: "currentScreen ((run fall_asleep power_up)\<lparr>clock := 40030\<rparr>) = 4"
    by code_simp
  have d: "edgeConfirmed LOW ((run fall_asleep power_up)\<lparr>clock := 40030\<rparr>)"
    by code_simp
  show ?thesis
    using a b c d
      idle_sleep_and_wake [of "(run [poll 600 HIGH 0] power_up)\<lparr>clock := 36600\<rparr>" 900 0]
      idle_sleep_and_wake [of "(run fall_asleep power_up)\<lparr>clock := 40030\<rparr>" 900 0]
    by simp
qed

subsection \<open>Button gestures\<close>

lemma handleButton_release:
  assumes "edgeConfirmed r s" and "r \<noteq> LOW"
  shows "handleButton r rn s =
     (let s1 = s\<lparr>btnState := r\<rparr> in
      handleButton_window (clock s)
        (if LONG_PRESS_MS \<le> clock s - btnDownAt s then
           (if currentScreen s = 1 then
              (if selectedLevel s \<le> unlockedLevel s then startLevel (selectedLevel s) rn s1
               else lcdPrintIfChanged ''Level locked'' ''Long press denied'' s1)
            else if currentScreen s = 0 \<and> 6000 \<le> clock s - lastActivity s then stopToWelcome s1
            else s1)
         else s1))"
  using assms
  by (simp add: edgeConfirmed_iff handleButton_def handleButton_track_def handleButton_edge_def Let_def)

lemma handleButton_no_edge:
  assumes "\<not> edgeConfirmed r s"
  shows "handleButton r rn s = handleButton_window (clock s) (handleButton_track r s)"
  using assms
  by (simp add: edgeConfirmed_def handleButton_def handleButton_edge_def Let_def)

lemma handleButton_window_fields:
  "currentScreen (handleButton_window now s) =
     (if (currentScreen s = 0 \<or> currentScreen s = 1) \<and> 0 < clickCount s
         \<and> CLICK_WINDOW_MS < now - lastClickTime s then 1 else currentScreen s)"
  "clickCount (handleButton_window now s) =
     (if (currentScreen s = 0 \<or> currentScreen s = 1) \<and> 0 < clickCount s
         \<and> CLICK_WINDOW_MS < now - lastClickTime s then 0 else clickCount s)"
  "selectedLevel (handleButton_window now s) =
     (if (currentScreen s = 0 \<or> currentScreen s = 1) \<and> 0 < clickCount s
         \<and> CLICK_WINDOW_MS < now - lastClickTime s then min 5 (max 1 (clickCount s))
      else selectedLevel s)"
  "lcdLine0 (handleButton_window now s) =
     (if (currentScreen s = 0 \<or> currentScreen s = 1) \<and> 0 < clickCount s
         \<and> CLICK_WINDOW_MS < now - lastClickTime s
      then ''Select Level: '' @ String_int (min 5 (max 1 (clickCount s))) else lcdLine0 s)"
  "lcdLine1 (handleButton_window now s) =
     (if (currentScreen s = 0 \<or> currentScreen s = 1) \<and> 0 < clickCount s
         \<and> CLICK_WINDOW_MS < now - lastClickTime s
      then (if min 5 (max 1 (clickCount s)) \<le> unlockedLevel s
            then ''Long press to enter'' else ''Level locked'')
      else lcdLine1 s)"
  by (auto simp add: handleButton_window_def leaf_upd Let_def)

lemma handleButton_window_idle:
  "clickCount s = 0 \<Longrightarrow> handleButton_window now s = s"
  by (simp add: handleButton_window_def)

lemma handleButton_track_fields:
  "currentScreen (handleButton_track r s) = currentScreen s"
  "clickCount (handleButton_track r s) = clickCount s"
  "lastClickTime (handleButton_track r s) = lastClickTime s"
  "selectedLevel (handleButton_track r s) = selectedLevel s"
  "unlockedLevel (handleButton_track r s) = unlockedLevel s"
  by (simp_all add: handleButton_track_def)

lemma stopToWelcome_fields:
  "currentScreen (stopToWelcome s) = 0"
  "clickCount (stopToWelcome s) = clickCount s"
  "lastClickTime (stopToWelcome s) = lastClickTime s"
  "selectedLevel (stopToWelcome s) = selectedLevel s"
  "unlockedLevel (stopToWelcome s) = unlockedLevel s"
  by (simp_all add: stopToWelcome_def leaf_upd Let_def)

lemma handleButton_enters:
  assumes "currentScreen s \<noteq> 2" and "currentScreen (handleButton r rn s) = 2"
  shows "currentScreen s = 1 \<and> selectedLevel s \<le> unlockedLevel s \<and> edgeConfirmed r s
       \<and> r \<noteq> LOW \<and> LONG_PRESS_MS \<le> clock s - btnDownAt s"
proof (cases "edgeConfirmed r s")
  case False
  with assms show ?thesis
    by (simp add: handleButton_no_edge handleButton_window_fields handleButton_track_fields
        split: if_splits)
next
  case True
  show ?thesis
  proof (cases "r = LOW")
    case True
    with assms \<open>edgeConfirmed r s\<close> show ?thesis
      by (simp add: edgeConfirmed_iff handleButton_def handleButton_track_def
          handleButton_edge_def wakeFromSleep_def handleButton_window_fields leaf_upd Let_def
          split: if_splits)
  next
    case False
    with assms \<open>edgeConfirmed r s\<close> show ?thesis
      by (simp add: handleButton_release handleButton_window_fields stopToWelcome_fields
          startLevel_fields leaf_upd Let_def split: if_splits)
  qed
qed

text \<open>
  Claim C7. A release confirmed on the level-select screen after a hold of 800 ms or more
  leads to the inGame screen if and only if the selected level is at most \<open>unlockedLevel\<close>.
  Otherwise the screen stays level-select and the long-press branch writes
  ``Level locked / Long press denied''; that text is still what the display cache holds when
  \<^verbatim>\<open>handleButton\<close> returns, unless a pending click count expires in the same call and
  overwrites it with the new selection. No other path of \<^verbatim>\<open>handleButton\<close> reaches the
  inGame screen, so a locked level is never entered.
\<close>

theorem long_press_on_level_select:
  "(currentScreen s = 1 \<and> edgeConfirmed r s \<and> r \<noteq> LOW \<and> LONG_PRESS_MS \<le> clock s - btnDownAt s \<longrightarrow>
      (currentScreen (handleButton r rn s) = 2 \<longleftrightarrow> selectedLevel s \<le> unlockedLevel s)
    \<and> (unlockedLevel s < selectedLevel s \<longrightarrow>
         currentScreen (handleButton r rn s) = 1
       \<and> lcdLine0 (snd (handleButton_edge (clock s) r rn (handleButton_track r s))) = ''Level locked''
       \<and> lcdLine1 (snd (handleButton_edge (clock s) r rn (handleButton_track r s))) = ''Long press denied''
       \<and> (clickCount s \<le> 0 \<or> clock s - lastClickTime s \<le> CLICK_WINDOW_MS \<longrightarrow>
            lcdLine0 (handleButton r rn s) = ''Level locked''
          \<and> lcdLine1 (handleButton r rn s) = ''Long press denied'')))
   \<and> (currentScreen s \<noteq> 2 \<and> currentScreen (handleButton r rn s) = 2 \<longrightarrow>
        currentScreen s = 1 \<and> selectedLevel s \<le> unlockedLevel s \<and> edgeConfirmed r s
      \<and> r \<noteq> LOW \<and> LONG_PRESS_MS \<le> clock s - btnDownAt s)"
proof (intro conjI impI)
  assume h: "currentScreen s \<noteq> 2 \<and> currentScreen (handleButton r rn s) = 2"
  then show "currentScreen s = 1" "selectedLevel s \<le> unlockedLevel s" "edgeConfirmed r s"
    "r \<noteq> LOW" "LONG_PRESS_MS \<le> clock s - btnDownAt s"
    using handleButton_enters [of s r rn] by simp_all
next
  assume h: "currentScreen s = 1 \<and> edgeConfirmed r s \<and> r \<noteq> LOW
    \<and> LONG_PRESS_MS \<le> clock s - btnDownAt s"
  then show "currentScreen (handleButton r rn s) = 2 \<longleftrightarrow> selectedLevel s \<le> unlockedLevel s"
    by (simp add: handleButton_release handleButton_window_fields startLevel_fields leaf_upd Let_def)
  assume l: "unlockedLevel s < selectedLevel s"
  from h l show "currentScreen (handleButton r rn s) = 1"
    by (simp add: handleButton_release handleButton_window_fields leaf_upd Let_def)
  from h l show "lcdLine0 (snd (handleButton_edge (clock s) r rn (handleButton_track r s))) = ''Level locked''"
    by (simp add: edgeConfirmed_iff handleButton_track_def handleButton_edge_def leaf_upd Let_def)
  from h l show "lcdLine1 (snd (handleButton_edge (clock s) r rn (handleButton_track r s))) = ''Long press denied''"
    by (simp add: edgeConfirmed_iff handleButton_track_def handleButton_edge_def leaf_upd Let_def)
  assume n: "clickCount s \<le> 0 \<or> clock s - lastClickTime s \<le> CLICK_WINDOW_MS"
  from h l n show "lcdLine0 (handleButton r rn s) = ''Level locked''"
    by (auto simp add: handleButton_release handleButton_window_fields leaf_upd Let_def)
  from h l n show "lcdLine1 (handleButton r rn s) = ''Long press denied''"
    by (auto simp add: handleButton_release handleButton_window_fields leaf_upd Let_def)
qed



theorem long_press_on_level_select_witness:
  "currentScreen ((run hold_level3 power_up)\<lparr>clock := 2330\<rparr>) = 1
   \<and> edgeConfirmed HIGH ((run hold_level3 power_up)\<lparr>clock := 2330\<rparr>)
   \<and> HIGH \<noteq> LOW
   \<and> LONG_PRESS_MS \<le> clock ((run hold_level3 power_up)\<lparr>clock := 2330\<rparr>)
                       - btnDownAt ((run hold_level3 power_up)\<lparr>clock := 2330\<rparr>)
   \<and> unlockedLevel ((run hold_level3 power_up)\<lparr>clock := 2330\<rparr>)
       < selectedLevel ((run hold_level3 power_up)\<lparr>clock := 2330\<rparr>)
   \<and> clickCount ((run hold_level3 power_up)\<lparr>clock := 2330\<rparr>) \<le> 0
   \<and> currentScreen (handleButton HIGH 900 ((run hold_level3 power_up)\<lparr>clock := 2330\<rparr>)) = 1
   \<and> lcdLine0 (handleButton HIGH 900 ((run hold_level3 power_up)\<lparr>clock := 2330\<rparr>))
       = ''Level locked''
   \<and> lcdLine1 (handleButton HIGH 900 ((run hold_level3 power_up)\<lparr>clock := 2330\<rparr>))
       = ''Long press denied''
   \<and> currentScreen ((run hold_level1 power_up)\<lparr>clock := 1930\<rparr>) \<noteq> 2
   \<and> currentScreen (handleButton HIGH 900 ((run hold_level1 power_up)\<lparr>clock := 1930\<rparr>)) = 2
   \<and> selectedLevel ((run hold_level1 power_up)\<lparr>clock := 1930\<rparr>)
       \<le> unlockedLevel ((run hold_level1 power_up)\<lparr>clock := 1930\<rparr>)"
proof -
  let ?s3 = "(run hold_level3 power_up)\<lparr>clock := 2330\<rparr>"
  let ?s1 = "(run hold_level1 power_up)\<lparr>clock := 1930\<rparr>"
  have a: "currentScreen ?s3 = 1" by code_simp
  have b: "edgeConfirmed HIGH ?s3" by code_simp
  have c: "LONG_PRESS_MS \<le> clock ?s3 - btnDownAt ?s3" by code_simp
  have d: "unlockedLevel ?s3 < selectedLevel ?s3" by code_simp
  have e: "clickCount ?s3 \<le> 0" by code_simp
  have f: "currentScreen ?s1 \<noteq> 2" by code_simp
  have g: "currentScreen (handleButton HIGH 900 ?s1) = 2" by code_simp
  have hl: "HIGH \<noteq> LOW" by simp
  have L: "currentScreen (handleButton HIGH 900 ?s3) = 1
       \<and> lcdLine0 (handleButton HIGH 900 ?s3) = ''Level locked''
       \<and> lcdLine1 (handleButton HIGH 900 ?s3) = ''Long press denied''"
    using a b c d e hl long_press_on_level_select [of ?s3 HIGH 900] by blast
  have U: "selectedLevel ?s1 \<le> unlockedLevel ?s1"
    using f g long_press_on_level_select [of ?s1 HIGH 900] by blast
  from a b c d e f g hl L U show ?thesis by blast
qed
text \<open>
  Claim C8. On the welcome or level-select screen, with a positive click count whose last
  counted press is more than 700 ms old, a call of \<^verbatim>\<open>handleButton\<close> selects the count
  clamped to 1..5, shows the level-select screen and clears the count; a second expiry check
  on the result changes nothing, so the count is resolved once. The resolution needs no
  button edge. The two premises on edges exclude the calls in which the test of the sketch
  no longer holds when it is reached: a press confirmed in this call restarts the window, and
  a long press that enters a level leaves the two screens.
\<close>

theorem click_window_resolution:
  assumes "currentScreen s = 0 \<or> currentScreen s = 1"
      and "0 < clickCount s"
      and "CLICK_WINDOW_MS < clock s - lastClickTime s"
      and "\<not> (edgeConfirmed r s \<and> r = LOW)"
      and "\<not> (edgeConfirmed r s \<and> LONG_PRESS_MS \<le> clock s - btnDownAt s
              \<and> currentScreen s = 1 \<and> selectedLevel s \<le> unlockedLevel s)"
  shows "selectedLevel (handleButton r rn s) = min 5 (max 1 (clickCount s))
       \<and> currentScreen (handleButton r rn s) = 1
       \<and> clickCount (handleButton r rn s) = 0
       \<and> handleButton_window t (handleButton r rn s) = handleButton r rn s"
proof -
  have main: "selectedLevel (handleButton r rn s) = min 5 (max 1 (clickCount s))
       \<and> currentScreen (handleButton r rn s) = 1
       \<and> clickCount (handleButton r rn s) = 0"
  proof (cases "edgeConfirmed r s")
    case False
    with assms show ?thesis
      by (simp add: handleButton_no_edge handleButton_window_fields handleButton_track_fields)
  next
    case True
    with assms have "r \<noteq> LOW" by simp
    with True assms show ?thesis
      by (auto simp add: handleButton_release handleButton_window_fields stopToWelcome_fields
          leaf_upd Let_def)
  qed
  then show ?thesis
    by (simp add: handleButton_window_idle)
qed

theorem click_window_resolution_witness:
  "(currentScreen ((run three_clicks power_up)\<lparr>clock := 2140\<rparr>) = 0
      \<or> currentScreen ((run three_clicks power_up)\<lparr>clock := 2140\<rparr>) = 1)
   \<and> clickCount ((run three_clicks power_up)\<lparr>clock := 2140\<rparr>) = 3
   \<and> CLICK_WINDOW_MS < clock ((run three_clicks power_up)\<lparr>clock := 2140\<rparr>)
                          - lastClickTime ((run three_clicks power_up)\<lparr>clock := 2140\<rparr>)
   \<and> \<not> edgeConfirmed HIGH ((run three_clicks power_up)\<lparr>clock := 2140\<rparr>)
   \<and> selectedLevel (handleButton HIGH 900 ((run three_clicks power_up)\<lparr>clock := 2140\<rparr>)) = 3
   \<and> currentScreen (handleButton HIGH 900 ((run three_clicks power_up)\<lparr>clock := 2140\<rparr>)) = 1
   \<and> clickCount (handleButton HIGH 900 ((run three_clicks power_up)\<lparr>clock := 2140\<rparr>)) = 0
   \<and> (currentScreen ((run seven_clicks power_up)\<lparr>clock := 2940\<rparr>) = 0
      \<or> currentScreen ((run seven_clicks power_up)\<lparr>clock := 2940\<rparr>) = 1)
   \<and> clickCount ((run seven_clicks power_up)\<lparr>clock := 2940\<rparr>) = 7
   \<and> CLICK_WINDOW_MS < clock ((run seven_clicks power_up)\<lparr>clock := 2940\<rparr>)
                          - lastClickTime ((run seven_clicks power_up)\<lparr>clock := 2940\<rparr>)
   \<and> \<not> edgeConfirmed HIGH ((run seven_clicks power_up)\<lparr>clock := 2940\<rparr>)
   \<and> selectedLevel (handleButton HIGH 900 ((run seven_clicks power_up)\<lparr>clock := 2940\<rparr>)) = 5
   \<and> currentScreen (handleButton HIGH 900 ((run seven_clicks power_up)\<lparr>clock := 2940\<rparr>)) = 1
   \<and> clickCount (handleButton HIGH 900 ((run seven_clicks power_up)\<lparr>clock := 2940\<rparr>)) = 0"
proof -
  let ?s3 = "(run three_clicks power_up)\<lparr>clock := 2140\<rparr>"
  let ?s7 = "(run seven_clicks power_up)\<lparr>clock := 2940\<rparr>"
  have a3: "currentScreen ?s3 = 0 \<or> currentScreen ?s3 = 1" by code_simp
  have b3: "clickCount ?s3 = 3" by code_simp
  have c3: "CLICK_WINDOW_MS < clock ?s3 - lastClickTime ?s3" by code_simp
  have d3: "\<not> edgeConfirmed HIGH ?s3" by code_simp
  have a7: "currentScreen ?s7 = 0 \<or> currentScreen ?s7 = 1" by code_simp
  have b7: "clickCount ?s7 = 7" by code_simp
  have c7: "CLICK_WINDOW_MS < clock ?s7 - lastClickTime ?s7" by code_simp
  have d7: "\<not> edgeConfirmed HIGH ?s7" by code_simp
  have p3: "0 < clickCount ?s3" using b3 by simp
  have p7: "0 < clickCount ?s7" using b7 by simp
  have e3: "\<not> (edgeConfirmed HIGH ?s3 \<and> HIGH = LOW)" by simp
  have e7: "\<not> (edgeConfirmed HIGH ?s7 \<and> HIGH = LOW)" by simp
  have f3: "\<not> (edgeConfirmed HIGH ?s3 \<and> LONG_PRESS_MS \<le> clock ?s3 - btnDownAt ?s3
              \<and> currentScreen ?s3 = 1 \<and> selectedLevel ?s3 \<le> unlockedLevel ?s3)"
    using d3 by simp
  have f7: "\<not> (edgeConfirmed HIGH ?s7 \<and> LONG_PRESS_MS \<le> clock ?s7 - btnDownAt ?s7
              \<and> currentScreen ?s7 = 1 \<and> selectedLevel ?s7 \<le> unlockedLevel ?s7)"
    using d7 by simp
  show ?thesis
    using a3 b3 c3 d3 a7 b7 c7 d7
      click_window_resolution [OF a3 p3 c3 e3 f3, of 900 0]
      click_window_resolution [OF a7 p7 c7 e7 f7, of 900 0]
    by simp
qed

lemma handleButton_long_press_clickCount:
  assumes "edgeConfirmed r s" and "LONG_PRESS_MS \<le> clock s - btnDownAt s" and "r \<noteq> LOW"
  shows "clickCount (handleButton r rn s) =
        (if currentScreen s = 1 \<and> selectedLevel s \<le> unlockedLevel s then clickCount s
         else if (currentScreen s = 0 \<or> currentScreen s = 1) \<and> 0 < clickCount s
                 \<and> CLICK_WINDOW_MS < clock s - lastClickTime s then 0
         else clickCount s)"
  using assms
  by (auto simp add: handleButton_release handleButton_window_fields stopToWelcome_fields
      startLevel_fields leaf_upd Let_def)

text \<open>
  Why the polling gap matters: in the run \<open>late_release\<close> no poll happens between 2100 and
  2900, the expiry check never sees the count of the press confirmed at 2030, and the release
  confirmed at 2900 enters level 1 with the count still at 1.
\<close>

lemma late_poll_keeps_click_count:
  "currentScreen (handleButton HIGH 900 ((run late_release power_up)\<lparr>clock := 2900\<rparr>)) = 2
   \<and> clickCount (handleButton HIGH 900 ((run late_release power_up)\<lparr>clock := 2900\<rparr>)) = 1"
  by code_simp

subsection \<open>Ranges kept by every poll\<close>

text \<open>
  \<^verbatim>\<open>selectedLevel\<close> stays within 1..5, so \<^verbatim>\<open>lvl[selectedLevel]\<close> is always one of the
  five entries \<^verbatim>\<open>initLevels\<close> assigns; the click count never drops below 0, so a nonzero
  count is a positive one.
\<close>

lemma handleButton_selectedLevel_range:
  assumes "1 \<le> selectedLevel s" and "selectedLevel s \<le> 5"
  shows "1 \<le> selectedLevel (handleButton r rn s) \<and> selectedLevel (handleButton r rn s) \<le> 5"
  using assms
  by (simp add: handleButton_defs startLevel_fields constrain_def leaf_upd Let_def
      split: prod.splits)

lemma loop_selectedLevel_range:
  assumes "1 \<le> selectedLevel s" and "selectedLevel s \<le> 5"
  shows "1 \<le> selectedLevel (loop inp s) \<and> selectedLevel (loop inp s) \<le> 5"
  using handleButton_selectedLevel_range [OF assms]
  by (simp add: loop_def loop_body_def Let_def loop_win_fields loop_timer_frame idleCheck_frame
      checkMelody_frame checkToneNB_frame updatePot_frame)

lemma handleButton_clickCount_nonneg:
  assumes "0 \<le> clickCount s"
  shows "0 \<le> clickCount (handleButton r rn s)"
  using assms
  by (simp add: handleButton_defs startLevel_fields leaf_upd Let_def split: prod.splits)

lemma loop_clickCount_nonneg:
  assumes "0 \<le> clickCount s"
  shows "0 \<le> clickCount (loop inp s)"
  using handleButton_clickCount_nonneg [OF assms]
  by (simp add: loop_def loop_body_def Let_def loop_win_fields loop_timer_frame idleCheck_frame
      checkMelody_frame checkToneNB_frame updatePot_frame)

lemma melody_frame:
  "melodyIndex (handleButton r rn s) = melodyIndex s"
  "melodyPlaying (handleButton r rn s) = melodyPlaying s"
  "melodyIndex (checkToneNB s) = melodyIndex s"
  "melodyPlaying (checkToneNB s) = melodyPlaying s"
  "melodyIndex (idleCheck s) = melodyIndex s"
  "melodyPlaying (idleCheck s) = melodyPlaying s"
  "melodyIndex (loop_timer now s) = melodyIndex s"
  "melodyPlaying (loop_timer now s) = melodyPlaying s"
  "melodyIndex (loop_win s) = melodyIndex s"
  by (simp_all add: handleButton_defs startLevel_def checkToneNB_def idleCheck_def goToSleep_def
      loop_timer_def loop_win_def leaf_upd Let_def split: prod.splits)

lemma loop_win_melodyPlaying:
  "melodyPlaying (loop_win s) \<Longrightarrow> melodyPlaying s"
  by (simp add: loop_win_def stopToWelcome_def leaf_upd Let_def split: if_splits)

lemma updatePot_melody:
  "(melodyIndex (updatePot raw s) = melodyIndex s \<and> melodyPlaying (updatePot raw s) = melodyPlaying s)
   \<or> melodyIndex (updatePot raw s) = 0"
  by (simp add: updatePot_def acceptStablePot_def stopToWelcome_def leaf_upd startToneNB_upd
      winNotes_def Let_def)

lemma checkMelody_melody:
  assumes "0 \<le> melodyIndex s" and "melodyPlaying s \<longrightarrow> melodyIndex s < winCount"
  shows "0 \<le> melodyIndex (checkMelody s)
       \<and> (melodyPlaying (checkMelody s) \<longrightarrow> melodyIndex (checkMelody s) < winCount)"
  using assms
  by (simp add: checkMelody_def checkMelody_note_def startToneNB_def leaf_upd winCount_def
      winNotes_def Let_def)

text \<open>
  \<^verbatim>\<open>winNotes[melodyIndex]\<close> and \<^verbatim>\<open>winDur[melodyIndex]\<close> are read inside the arrays:
  while the melody plays the index is one of 0..3, and every poll keeps it so.
\<close>

lemma loop_melodyIndex_range:
  assumes "0 \<le> melodyIndex s" and "melodyPlaying s \<longrightarrow> melodyIndex s < winCount"
  shows "0 \<le> melodyIndex (loop inp s)
       \<and> (melodyPlaying (loop inp s) \<longrightarrow> melodyIndex (loop inp s) < winCount)"
proof -
  let ?s2 = "updatePot (potRaw inp) (handleButton (btnPin inp) (rndTarget inp) s)"
  let ?s3 = "checkToneNB ?s2"
  have "0 \<le> melodyIndex ?s2 \<and> (melodyPlaying ?s2 \<longrightarrow> melodyIndex ?s2 < winCount)"
    using assms updatePot_melody [of "potRaw inp" "handleButton (btnPin inp) (rndTarget inp) s"]
    by (auto simp add: melody_frame winCount_def winNotes_def)
  then have "0 \<le> melodyIndex ?s3" and "melodyPlaying ?s3 \<longrightarrow> melodyIndex ?s3 < winCount"
    by (simp_all add: melody_frame)
  from checkMelody_melody [OF this] loop_win_melodyPlaying [of "loop_body inp s"]
  show ?thesis
    by (auto simp add: loop_def loop_body_def Let_def melody_frame)
qed

text \<open>No poll puts 3 (winAnim) into \<^verbatim>\<open>currentScreen\<close>.\<close>

lemma handleButton_screens:
  "currentScreen s \<noteq> 3 \<Longrightarrow> currentScreen (handleButton r rn s) \<noteq> 3"
  by (simp add: handleButton_defs startLevel_fields leaf_upd Let_def split: prod.splits)

lemma updatePot_screens:
  "currentScreen (updatePot raw s) = currentScreen s \<or> currentScreen (updatePot raw s) = 0"
  by (simp add: updatePot_def acceptStablePot_def stopToWelcome_def leaf_upd startToneNB_upd
      winNotes_def Let_def)

lemma idleCheck_screens:
  "currentScreen (idleCheck s) = currentScreen s \<or> currentScreen (idleCheck s) = 4"
  by (simp add: idleCheck_def goToSleep_def)

lemma loop_timer_screens:
  "currentScreen (loop_timer now s) = currentScreen s \<or> currentScreen (loop_timer now s) = 0"
  by (simp add: loop_timer_def stopToWelcome_def leaf_upd Let_def)

lemma loop_never_winAnim:
  assumes "currentScreen s \<noteq> 3"
  shows "currentScreen (loop inp s) \<noteq> 3"
proof -
  let ?s1 = "handleButton (btnPin inp) (rndTarget inp) s"
  let ?s2 = "updatePot (potRaw inp) ?s1"
  let ?s4 = "checkMelody (checkToneNB ?s2)"
  let ?s5 = "idleCheck ?s4"
  have 1: "currentScreen ?s1 \<noteq> 3"
    using assms by (rule handleButton_screens)
  have 2: "currentScreen ?s2 \<noteq> 3"
    using 1 updatePot_screens [of "potRaw inp" ?s1] by auto
  have 4: "currentScreen ?s4 \<noteq> 3"
    using 2 by (simp add: checkMelody_frame checkToneNB_frame)
  have 5: "currentScreen ?s5 \<noteq> 3"
    using 4 idleCheck_screens [of ?s4] by auto
  have 6: "currentScreen (loop_timer (clock s) ?s5) \<noteq> 3"
    using 5 loop_timer_screens [of "clock s" ?s5] by auto
  then show ?thesis
    by (simp add: loop_def loop_body_def Let_def loop_win_fields)
qed

subsection \<open>Long presses under prompt polling\<close>

text \<open>Word arithmetic on poll times.\<close>

lemma unat_add_small:
  fixes x y :: ulong
  assumes "unat x \<le> 1000" and "unat y \<le> 1000"
  shows "unat (x + y) = unat x + unat y"
proof -
  have "unat x + unat y < 2 ^ LENGTH(32)" using assms by simp
  then show ?thesis by (simp only: unat_add_lem [THEN iffD1])
qed

lemma unat_sub_chain:
  fixes t c d :: ulong
  assumes "unat (c - d) \<le> 1000" and "unat (t - c) \<le> 1000"
  shows "unat (t - d) = unat (c - d) + unat (t - c)"
proof -
  have "t - d = (c - d) + (t - c)" by simp
  then show ?thesis using unat_add_small [OF assms] by (simp only:)
qed

lemma gap_after_window:
  fixes t c d :: ulong
  assumes "c - d \<le> 700" and "t - c \<le> 99"
  shows "\<not> 800 \<le> t - d"
proof -
  have a: "unat (c - d) \<le> 700" using assms(1) by (simp add: word_le_nat_alt)
  have b: "unat (t - c) \<le> 99" using assms(2) by (simp add: word_le_nat_alt)
  have "unat (t - d) = unat (c - d) + unat (t - c)"
    using a b by (intro unat_sub_chain) simp_all
  then have "unat (t - d) \<le> 799" using a b by simp
  then show ?thesis by (simp add: word_le_nat_alt)
qed

lemma gap_keeps_lag:
  fixes t c l a :: ulong
  assumes "c - l \<le> 700" and "unat (c - a) \<le> unat (c - l) + 99" and "t - c \<le> 99"
  shows "unat (t - a) \<le> unat (t - l) + 99"
proof -
  have x: "unat (c - l) \<le> 700" using assms(1) by (simp add: word_le_nat_alt)
  have g: "unat (t - c) \<le> 99" using assms(3) by (simp add: word_le_nat_alt)
  have y: "unat (c - a) \<le> 799" using assms(2) x by simp
  have 1: "unat (t - l) = unat (c - l) + unat (t - c)"
    using x g by (intro unat_sub_chain) simp_all
  have 2: "unat (t - a) = unat (c - a) + unat (t - c)"
    using y g by (intro unat_sub_chain) simp_all
  show ?thesis using 1 2 assms(2) by simp
qed

lemma gap_starts_lag:
  fixes t c l :: ulong
  assumes "t - c \<le> 99"
  shows "unat (t - c) \<le> unat (t - l) + 99"
  using assms by (simp add: word_le_nat_alt)

lemma gap_lag_recent:
  fixes t c l a :: ulong
  assumes "c - l \<le> 700" and "unat (c - a) \<le> unat (c - l) + 99" and "t - c \<le> 99"
  shows "\<not> 6000 \<le> t - a"
proof -
  have x: "unat (c - l) \<le> 700" using assms(1) by (simp add: word_le_nat_alt)
  have g: "unat (t - c) \<le> 99" using assms(3) by (simp add: word_le_nat_alt)
  have y: "unat (c - a) \<le> 799" using assms(2) x by simp
  have "unat (t - a) = unat (c - a) + unat (t - c)"
    using y g by (intro unat_sub_chain) simp_all
  then have "unat (t - a) \<le> 898" using y g by simp
  then show ?thesis by (simp add: word_le_nat_alt)
qed

lemma gap_recent:
  fixes t c :: ulong
  assumes "t - c \<le> 99"
  shows "\<not> 6000 \<le> t - c" and "\<not> 800 \<le> t - c"
  using assms by (simp_all add: word_le_nat_alt)

text \<open>At a release confirmed after 800 ms or more that has an effect, no click is pending.\<close>

lemma clickInv_release:
  assumes inv: "clickInv s" and gap: "t - clock s \<le> 99"
      and down: "btnState s \<noteq> HIGH"
      and hold: "LONG_PRESS_MS \<le> t - btnDownAt s"
      and act: "currentScreen s = 1 \<or> (currentScreen s = 0 \<and> 6000 \<le> t - lastActivity s)"
  shows "clickCount s = 0"
proof (rule ccontr)
  assume "clickCount s \<noteq> 0"
  with inv have pos: "0 < clickCount s" by (simp add: clickInv_def)
  from inv down have low: "btnState s = LOW" by (auto simp add: clickInv_def)
  from act show False
  proof
    assume "currentScreen s = 1"
    with inv pos low have "clock s - btnDownAt s \<le> 700" by (simp add: clickInv_def)
    from gap_after_window [OF this gap] hold show False by simp
  next
    assume a: "currentScreen s = 0 \<and> 6000 \<le> t - lastActivity s"
    with inv pos low have
      "(lastClickTime s = btnDownAt s \<and> clock s - btnDownAt s \<le> 700)
         \<or> clock s = lastActivity s
         \<or> (clock s - lastClickTime s \<le> 700
            \<and> unat (clock s - lastActivity s) \<le> unat (clock s - lastClickTime s) + 99)"
      by (simp add: clickInv_def)
    then show False
    proof (elim disjE conjE)
      assume "clock s - btnDownAt s \<le> 700"
      from gap_after_window [OF this gap] hold show False by simp
    next
      assume "clock s = lastActivity s"
      with gap_recent(1) [OF gap] a show False by simp
    next
      assume "clock s - lastClickTime s \<le> 700"
        and "unat (clock s - lastActivity s) \<le> unat (clock s - lastClickTime s) + 99"
      from gap_lag_recent [OF this gap] a show False by simp
    qed
  qed
qed

lemma handleButton_press:
  assumes "edgeConfirmed LOW s"
  shows "handleButton LOW rn s =
     (if currentScreen s = 4 then wakeFromSleep (s\<lparr>btnState := LOW, btnDownAt := clock s\<rparr>)
      else if currentScreen s = 0 \<or> currentScreen s = 1 then
        handleButton_window (clock s)
          (lcdPrintIfChanged ''Selecting...'' (''Clicks:'' @ String_int (clickCount s + 1))
            (s\<lparr>btnState := LOW, btnDownAt := clock s, clickCount := clickCount s + 1,
               lastClickTime := clock s\<rparr>))
      else handleButton_window (clock s) (s\<lparr>btnState := LOW, btnDownAt := clock s\<rparr>))"
  using assms
  by (simp add: edgeConfirmed_iff handleButton_def handleButton_track_def handleButton_edge_def Let_def)

lemma handleButton_window_view:
  "clock (handleButton_window now s) = clock s"
  "btnState (handleButton_window now s) = btnState s"
  "btnDownAt (handleButton_window now s) = btnDownAt s"
  "lastClickTime (handleButton_window now s) = lastClickTime s"
  "lastActivity (handleButton_window now s) =
     (if (currentScreen s = 0 \<or> currentScreen s = 1) \<and> 0 < clickCount s
         \<and> CLICK_WINDOW_MS < now - lastClickTime s then now else lastActivity s)"
  by (auto simp add: handleButton_window_def leaf_upd Let_def)

lemma handleButton_track_view:
  "clock (handleButton_track r s) = clock s"
  "btnState (handleButton_track r s) = btnState s"
  "btnDownAt (handleButton_track r s) = btnDownAt s"
  "lastActivity (handleButton_track r s) = lastActivity s"
  by (simp_all add: handleButton_track_def)

lemma clickInv_no_edge:
  assumes inv: "clickInv s" and gap: "t - clock s \<le> 99"
      and ne: "\<not> edgeConfirmed r (s\<lparr>clock := t\<rparr>)"
  shows "clickInv (handleButton r rn (s\<lparr>clock := t\<rparr>))"
proof -
  let ?s1 = "handleButton r rn (s\<lparr>clock := t\<rparr>)"
  have eq: "?s1 = handleButton_window t (handleButton_track r (s\<lparr>clock := t\<rparr>))"
    using ne by (simp add: handleButton_no_edge)
  show ?thesis
  proof (cases "(currentScreen s = 0 \<or> currentScreen s = 1) \<and> 0 < clickCount s
      \<and> CLICK_WINDOW_MS < t - lastClickTime s")
    case True
    then have "clickCount ?s1 = 0" "currentScreen ?s1 = 1" "btnState ?s1 = btnState s"
      by (simp_all add: eq handleButton_window_fields handleButton_window_view
          handleButton_track_fields handleButton_track_view)
    with inv show ?thesis by (simp add: clickInv_def)
  next
    case False
    then have f: "clickCount ?s1 = clickCount s" "currentScreen ?s1 = currentScreen s"
      "btnState ?s1 = btnState s" "btnDownAt ?s1 = btnDownAt s"
      "lastClickTime ?s1 = lastClickTime s" "lastActivity ?s1 = lastActivity s" "clock ?s1 = t"
      by (auto simp add: eq handleButton_window_fields handleButton_window_view
          handleButton_track_fields handleButton_track_view)
    have w: "0 < clickCount s \<Longrightarrow> currentScreen s = 0 \<or> currentScreen s = 1
        \<Longrightarrow> t - lastClickTime s \<le> 700"
      using False by auto
    show ?thesis
      unfolding clickInv_def f
    proof (intro conjI impI)
      assume h: "btnState s = LOW \<and> 0 < clickCount s \<and> currentScreen s = 1"
      with inv have "lastClickTime s = btnDownAt s" by (simp add: clickInv_def)
      then show "lastClickTime s = btnDownAt s" .
      with w h show "t - btnDownAt s \<le> 700" by simp
    next
      assume h: "btnState s = LOW \<and> 0 < clickCount s \<and> currentScreen s = 0"
      with w have wl: "t - lastClickTime s \<le> 700" by simp
      from inv h have
        "(lastClickTime s = btnDownAt s \<and> clock s - btnDownAt s \<le> 700)
          \<or> clock s = lastActivity s
          \<or> (clock s - lastClickTime s \<le> 700
             \<and> unat (clock s - lastActivity s) \<le> unat (clock s - lastClickTime s) + 99)"
        by (simp add: clickInv_def)
      then show "(lastClickTime s = btnDownAt s \<and> t - btnDownAt s \<le> 700)
          \<or> t = lastActivity s
          \<or> (t - lastClickTime s \<le> 700
             \<and> unat (t - lastActivity s) \<le> unat (t - lastClickTime s) + 99)"
      proof (elim disjE conjE)
        assume "lastClickTime s = btnDownAt s"
        with wl show ?thesis by simp
      next
        assume "clock s = lastActivity s"
        with gap_starts_lag [OF gap, of "lastClickTime s"] wl show ?thesis by simp
      next
        assume "clock s - lastClickTime s \<le> 700"
          and "unat (clock s - lastActivity s) \<le> unat (clock s - lastClickTime s) + 99"
        from gap_keeps_lag [OF this gap] wl show ?thesis by simp
      qed
    qed (use inv in \<open>simp_all add: clickInv_def\<close>)
  qed
qed

lemma clickInv_press:
  assumes inv: "clickInv s" and e: "edgeConfirmed LOW (s\<lparr>clock := t\<rparr>)"
  shows "clickInv (handleButton LOW rn (s\<lparr>clock := t\<rparr>))"
proof -
  let ?s0 = "s\<lparr>clock := t\<rparr>"
  from inv have scr: "currentScreen s = 0 \<or> currentScreen s = 1 \<or> currentScreen s = 2
      \<or> currentScreen s = 4"
    by (simp add: clickInv_def)
  then show ?thesis
  proof (elim disjE)
    assume "currentScreen s = 4"
    then show ?thesis
      using inv by (simp add: handleButton_press [OF e] wakeFromSleep_def leaf_upd Let_def clickInv_def)
  next
    assume "currentScreen s = 2"
    then show ?thesis
      using inv by (simp add: handleButton_press [OF e] handleButton_window_def clickInv_def)
  next
    assume "currentScreen s = 0"
    then show ?thesis
      using inv by (simp add: handleButton_press [OF e] handleButton_window_def leaf_upd clickInv_def)
  next
    assume "currentScreen s = 1"
    then show ?thesis
      using inv by (simp add: handleButton_press [OF e] handleButton_window_def leaf_upd clickInv_def)
  qed
qed

lemma clickInv_release_step:
  assumes inv: "clickInv s" and gap: "t - clock s \<le> 99"
      and e: "edgeConfirmed HIGH (s\<lparr>clock := t\<rparr>)"
  shows "clickInv (handleButton HIGH rn (s\<lparr>clock := t\<rparr>))"
proof -
  let ?s0 = "s\<lparr>clock := t\<rparr>"
  let ?s1 = "handleButton HIGH rn ?s0"
  from e have down: "btnState s \<noteq> HIGH" by (simp add: edgeConfirmed_iff)
  have st: "btnState ?s1 = HIGH"
    using e by (simp add: handleButton_release handleButton_window_view stopToWelcome_def
        startLevel_def leaf_upd Let_def)
  have cc: "clickCount ?s1 = 0 \<or> clickCount ?s1 = clickCount s"
    using e by (simp add: handleButton_release handleButton_window_fields stopToWelcome_fields
        startLevel_fields leaf_upd Let_def)
  have sc: "currentScreen ?s1 = 0 \<or> currentScreen ?s1 = 1
      \<or> (currentScreen ?s1 = 2 \<and> currentScreen s = 2)
      \<or> (currentScreen ?s1 = 4 \<and> currentScreen s = 4)
      \<or> (currentScreen ?s1 = 2 \<and> currentScreen s = 1 \<and> LONG_PRESS_MS \<le> t - btnDownAt s
          \<and> clickCount ?s1 = clickCount s)"
    using e inv
    by (auto simp add: clickInv_def handleButton_release handleButton_window_fields
        stopToWelcome_fields startLevel_fields leaf_upd Let_def)
  have two: "currentScreen ?s1 = 2 \<Longrightarrow> clickCount ?s1 = 0"
  proof -
    assume a: "currentScreen ?s1 = 2"
    from sc a consider "currentScreen s = 2"
      | "currentScreen s = 1 \<and> LONG_PRESS_MS \<le> t - btnDownAt s \<and> clickCount ?s1 = clickCount s"
      by auto
    then show ?thesis
    proof cases
      case 1
      with inv have "clickCount s = 0" by (simp add: clickInv_def)
      with cc show ?thesis by auto
    next
      case 2
      then have "clickCount s = 0"
        using clickInv_release [OF inv gap down, of ] by simp
      with 2 show ?thesis by simp
    qed
  qed
  from inv cc have nn: "0 \<le> clickCount ?s1" by (auto simp add: clickInv_def)
  show ?thesis
    unfolding clickInv_def
    using st nn sc two by auto
qed

lemma clickInv_handleButton:
  assumes "clickInv s" and "t - clock s \<le> 99" and "r = LOW \<or> r = HIGH"
  shows "clickInv (handleButton r rn (s\<lparr>clock := t\<rparr>))"
proof (cases "edgeConfirmed r (s\<lparr>clock := t\<rparr>)")
  case False
  with assms show ?thesis by (simp add: clickInv_no_edge)
next
  case True
  with assms show ?thesis by (auto simp add: clickInv_press clickInv_release_step)
qed

lemma button_frame:
  "btnState (updatePot raw s) = btnState s"
  "btnDownAt (updatePot raw s) = btnDownAt s"
  "lastClickTime (updatePot raw s) = lastClickTime s"
  "btnState (checkToneNB s) = btnState s"
  "btnDownAt (checkToneNB s) = btnDownAt s"
  "lastClickTime (checkToneNB s) = lastClickTime s"
  "btnState (checkMelody s) = btnState s"
  "btnDownAt (checkMelody s) = btnDownAt s"
  "lastClickTime (checkMelody s) = lastClickTime s"
  "btnState (idleCheck s) = btnState s"
  "btnDownAt (idleCheck s) = btnDownAt s"
  "lastClickTime (idleCheck s) = lastClickTime s"
  "btnState (loop_timer now s) = btnState s"
  "btnDownAt (loop_timer now s) = btnDownAt s"
  "lastClickTime (loop_timer now s) = lastClickTime s"
  "btnState (loop_win s) = btnState s"
  "btnDownAt (loop_win s) = btnDownAt s"
  "lastClickTime (loop_win s) = lastClickTime s"
  by (simp_all add: updatePot_def acceptStablePot_def checkToneNB_def checkMelody_def
      checkMelody_note_def startToneNB_def idleCheck_def goToSleep_def loop_timer_def loop_win_def
      stopToWelcome_def leaf_upd winNotes_def Let_def)

lemma loop_win_cases:
  "loop_win s = s
   \<or> (currentScreen (loop_win s) = 0 \<and> lastActivity (loop_win s) = clock s
      \<and> clock (loop_win s) = clock s)"
  by (simp add: loop_win_def stopToWelcome_def leaf_upd Let_def)

text \<open>The polled components after the button, as one step.\<close>

lemma loop_as_steps:
  "loop inp s =
     loop_win (loop_timer (clock s) (idleCheck (checkMelody (checkToneNB
       (updatePot (potRaw inp) (handleButton (btnPin inp) (rndTarget inp) s))))))"
  by (simp add: loop_def loop_body_def Let_def)

lemma clickInv_cleared:
  assumes "clickInv s" and "clickCount s' = 0" and "btnState s' = btnState s"
      and "currentScreen s' = 2 \<or> currentScreen s' = 0 \<or> currentScreen s' = 4"
  shows "clickInv s'"
proof -
  from assms(1) have "btnState s = LOW \<or> btnState s = HIGH" by (simp add: clickInv_def)
  with assms(3) have b: "btnState s' = LOW \<or> btnState s' = HIGH" by simp
  from assms(4) have c: "currentScreen s' = 0 \<or> currentScreen s' = 1 \<or> currentScreen s' = 2
      \<or> currentScreen s' = 4"
    by blast
  show ?thesis
    unfolding clickInv_def using assms(2) b c by simp
qed

lemma clickInv_moved:
  assumes inv: "clickInv s"
      and cc: "clickCount s' = clickCount s" and bs: "btnState s' = btnState s"
      and bd: "btnDownAt s' = btnDownAt s" and lc: "lastClickTime s' = lastClickTime s"
      and ck: "clock s' = clock s"
      and n2: "currentScreen s \<noteq> 2"
      and mv: "(currentScreen s' = currentScreen s
            \<and> (lastActivity s' = lastActivity s \<or> lastActivity s' = clock s))
         \<or> currentScreen s' = 4
         \<or> (currentScreen s' = 0 \<and> lastActivity s' = clock s)"
  shows "clickInv s'"
proof -
  from inv have i1: "0 \<le> clickCount s"
    and i2: "currentScreen s = 0 \<or> currentScreen s = 1 \<or> currentScreen s = 2
      \<or> currentScreen s = 4"
    and i3: "btnState s = LOW \<or> btnState s = HIGH"
    and i5: "btnState s = LOW \<and> 0 < clickCount s \<and> currentScreen s = 1 \<longrightarrow>
           lastClickTime s = btnDownAt s \<and> clock s - btnDownAt s \<le> CLICK_WINDOW_MS"
    and i6: "btnState s = LOW \<and> 0 < clickCount s \<and> currentScreen s = 0 \<longrightarrow>
           (lastClickTime s = btnDownAt s \<and> clock s - btnDownAt s \<le> CLICK_WINDOW_MS)
         \<or> clock s = lastActivity s
         \<or> (clock s - lastClickTime s \<le> CLICK_WINDOW_MS
            \<and> unat (clock s - lastActivity s) \<le> unat (clock s - lastClickTime s) + 99)"
    by (simp_all add: clickInv_def)
  have c1: "0 \<le> clickCount s'" using i1 cc by simp
  have c2: "currentScreen s' = 0 \<or> currentScreen s' = 1 \<or> currentScreen s' = 2
      \<or> currentScreen s' = 4"
    using i2 mv by auto
  have c3: "btnState s' = LOW \<or> btnState s' = HIGH" using i3 bs by simp
  have c4: "currentScreen s' = 2 \<longrightarrow> clickCount s' = 0"
    using n2 mv by auto
  have c5: "btnState s' = LOW \<and> 0 < clickCount s' \<and> currentScreen s' = 1 \<longrightarrow>
           lastClickTime s' = btnDownAt s' \<and> clock s' - btnDownAt s' \<le> CLICK_WINDOW_MS"
  proof
    assume h: "btnState s' = LOW \<and> 0 < clickCount s' \<and> currentScreen s' = 1"
    with mv have "currentScreen s = 1" by auto
    with h i5 cc bs have "lastClickTime s = btnDownAt s \<and> clock s - btnDownAt s \<le> 700"
      by simp
    then show "lastClickTime s' = btnDownAt s' \<and> clock s' - btnDownAt s' \<le> 700"
      by (simp add: lc bd ck)
  qed
  have c6: "btnState s' = LOW \<and> 0 < clickCount s' \<and> currentScreen s' = 0 \<longrightarrow>
           (lastClickTime s' = btnDownAt s' \<and> clock s' - btnDownAt s' \<le> CLICK_WINDOW_MS)
         \<or> clock s' = lastActivity s'
         \<or> (clock s' - lastClickTime s' \<le> CLICK_WINDOW_MS
            \<and> unat (clock s' - lastActivity s') \<le> unat (clock s' - lastClickTime s') + 99)"
  proof
    assume h: "btnState s' = LOW \<and> 0 < clickCount s' \<and> currentScreen s' = 0"
    from mv h consider
        (same) "currentScreen s = 0" "lastActivity s' = lastActivity s"
      | (fresh) "lastActivity s' = clock s"
      by auto
    then show "(lastClickTime s' = btnDownAt s' \<and> clock s' - btnDownAt s' \<le> 700)
         \<or> clock s' = lastActivity s'
         \<or> (clock s' - lastClickTime s' \<le> 700
            \<and> unat (clock s' - lastActivity s') \<le> unat (clock s' - lastClickTime s') + 99)"
    proof cases
      case same
      with h i6 cc bs have
        "(lastClickTime s = btnDownAt s \<and> clock s - btnDownAt s \<le> 700)
         \<or> clock s = lastActivity s
         \<or> (clock s - lastClickTime s \<le> 700
            \<and> unat (clock s - lastActivity s) \<le> unat (clock s - lastClickTime s) + 99)"
        by simp
      then show ?thesis by (simp add: lc bd ck same(2))
    next
      case fresh
      then show ?thesis by (simp add: ck)
    qed
  qed
  show ?thesis
    unfolding clickInv_def using c1 c2 c3 c4 c5 c6 by blast
qed

lemma clickInv_rest:
  assumes inv: "clickInv s1"
  shows "clickInv (loop_win (loop_timer now (idleCheck (checkMelody (checkToneNB
           (updatePot raw s1))))))"
proof -
  let ?u2 = "updatePot raw s1"
  let ?u4 = "checkMelody (checkToneNB ?u2)"
  let ?u5 = "idleCheck ?u4"
  let ?u6 = "loop_timer now ?u5"
  let ?u7 = "loop_win ?u6"
  have fr: "btnState ?u7 = btnState s1" "btnDownAt ?u7 = btnDownAt s1"
    "lastClickTime ?u7 = lastClickTime s1" "clickCount ?u7 = clickCount s1"
    by (simp_all add: button_frame loop_win_fields loop_timer_frame idleCheck_frame
        checkMelody_frame checkToneNB_frame updatePot_frame)
  show ?thesis
  proof (cases "currentScreen s1 = 2")
    case True
    with inv have z: "clickCount s1 = 0" by (simp add: clickInv_def)
    have a: "currentScreen ?u2 = 2 \<or> currentScreen ?u2 = 0"
      using True updatePot_screens [of raw s1] by auto
    then have "currentScreen ?u4 = 2 \<or> currentScreen ?u4 = 0"
      by (simp add: checkMelody_frame checkToneNB_frame)
    then have b: "currentScreen ?u5 = 2 \<or> currentScreen ?u5 = 0 \<or> currentScreen ?u5 = 4"
      using idleCheck_screens [of ?u4] by auto
    then have c: "currentScreen ?u6 = 2 \<or> currentScreen ?u6 = 0 \<or> currentScreen ?u6 = 4"
      using loop_timer_screens [of now ?u5] by auto
    have "currentScreen ?u7 = currentScreen ?u6 \<or> currentScreen ?u7 = 0"
      by (simp add: loop_win_fields)
    with c have d: "currentScreen ?u7 = 2 \<or> currentScreen ?u7 = 0 \<or> currentScreen ?u7 = 4"
      by auto
    from z fr have "clickCount ?u7 = 0" by simp
    with inv show ?thesis using fr(1) d by (rule clickInv_cleared)
  next
    case False
    have u2: "currentScreen ?u2 = currentScreen s1" "clock ?u2 = clock s1"
      "lastActivity ?u2 = lastActivity s1 \<or> lastActivity ?u2 = clock s1"
      using updatePot_not_inGame [OF False, of raw] by simp_all
    have u4: "currentScreen ?u4 = currentScreen s1" "clock ?u4 = clock s1"
      "lastActivity ?u4 = lastActivity s1 \<or> lastActivity ?u4 = clock s1"
      using u2 by (simp_all add: checkMelody_frame checkToneNB_frame)
    have u5: "currentScreen ?u5 = currentScreen s1 \<or> currentScreen ?u5 = 4" "clock ?u5 = clock s1"
      "lastActivity ?u5 = lastActivity s1 \<or> lastActivity ?u5 = clock s1"
      using u4 idleCheck_screens [of ?u4] by (auto simp add: idleCheck_frame)
    from u5(1) False have ne: "currentScreen ?u5 \<noteq> 2" by auto
    then have u6: "?u6 = ?u5" by (rule loop_timer_not_inGame)
    have w: "loop_win ?u5 = ?u5
       \<or> (currentScreen (loop_win ?u5) = 0 \<and> lastActivity (loop_win ?u5) = clock ?u5
          \<and> clock (loop_win ?u5) = clock ?u5)"
      by (rule loop_win_cases)
    have ck: "clock ?u7 = clock s1"
      using w u5(2) unfolding u6 by auto
    have u7: "(currentScreen ?u7 = currentScreen s1
          \<and> (lastActivity ?u7 = lastActivity s1 \<or> lastActivity ?u7 = clock s1))
        \<or> currentScreen ?u7 = 4
        \<or> (currentScreen ?u7 = 0 \<and> lastActivity ?u7 = clock s1)"
      using w u5 unfolding u6 by auto
    from inv fr(4) fr(1) fr(2) fr(3) ck False u7 show ?thesis by (rule clickInv_moved)
  qed
qed

lemma clickInv_tick:
  assumes "clickInv s" and "fst p - clock s \<le> 99"
      and "btnPin (snd p) = LOW \<or> btnPin (snd p) = HIGH"
  shows "clickInv (tick p s)"
proof -
  have "clickInv (handleButton (btnPin (snd p)) (rndTarget (snd p)) (s\<lparr>clock := fst p\<rparr>))"
    using assms by (rule clickInv_handleButton)
  from clickInv_rest [OF this] show ?thesis
    by (simp add: tick_def loop_as_steps)
qed

lemma clickInv_run:
  assumes "clickInv s" and "prompt s ps"
  shows "clickInv (run ps s)"
  using assms
proof (induction ps arbitrary: s)
  case Nil
  then show ?case by (simp add: run_def)
next
  case (Cons p ps)
  from Cons.prems have "clickInv (tick p s)" by (simp add: clickInv_tick)
  moreover from Cons.prems have "prompt (tick p s) ps" by simp
  ultimately have "clickInv (run ps (tick p s))" by (rule Cons.IH)
  then show ?case by (simp add: run_def)
qed

lemma clickInv_setup:
  "clickInv (setup_board r boot)"
  by (simp add: clickInv_def setup_board_def boot_def leaf_upd Let_def)

lemma loop_clickCount:
  "clickCount (loop inp s) = clickCount (handleButton (btnPin inp) (rndTarget inp) s)"
  by (simp add: loop_as_steps loop_win_fields loop_timer_frame idleCheck_frame
      checkMelody_frame checkToneNB_frame updatePot_frame)

text \<open>
  Claim C3. The click count is cleared whenever the expiry check resolves it into a level
  selection. In every run from power-up that is polled promptly, a release confirmed after a
  hold of 800 ms or more that triggers a long-press action (on the level-select screen, or on
  the welcome screen 6000 ms or more after the last activity) leaves the click count at
  zero, both when \<^verbatim>\<open>handleButton\<close> returns and at the end of that poll: the expiry check
  of an earlier poll has already resolved the count of the held press.
\<close>

theorem long_press_clears_click_count:
  assumes "prompt (setup_board r0 boot) ps"
      and "t - clock (run ps (setup_board r0 boot)) \<le> 99"
      and "edgeConfirmed HIGH ((run ps (setup_board r0 boot))\<lparr>clock := t\<rparr>)"
      and "LONG_PRESS_MS \<le> t - btnDownAt (run ps (setup_board r0 boot))"
      and "currentScreen (run ps (setup_board r0 boot)) = 1
           \<or> (currentScreen (run ps (setup_board r0 boot)) = 0
              \<and> 6000 \<le> t - lastActivity (run ps (setup_board r0 boot)))"
  shows "clickCount (handleButton HIGH rn ((run ps (setup_board r0 boot))\<lparr>clock := t\<rparr>)) = 0
       \<and> clickCount (tick (t, \<lparr>btnPin = HIGH, potRaw = p, rndTarget = rn\<rparr>)
                        (run ps (setup_board r0 boot))) = 0
       \<and> ((currentScreen u = 0 \<or> currentScreen u = 1) \<and> 0 < clickCount u
            \<and> CLICK_WINDOW_MS < now - lastClickTime u \<longrightarrow>
            clickCount (handleButton_window now u) = 0
          \<and> currentScreen (handleButton_window now u) = 1
          \<and> selectedLevel (handleButton_window now u) = min 5 (max 1 (clickCount u)))"
proof -
  let ?s = "run ps (setup_board r0 boot)"
  have inv: "clickInv ?s"
    using clickInv_setup assms(1) by (rule clickInv_run)
  from assms(3) have down: "btnState ?s \<noteq> HIGH" by (simp add: edgeConfirmed_iff)
  have z: "clickCount ?s = 0"
    using inv assms(2) down assms(4) assms(5) by (rule clickInv_release)
  have hl: "HIGH \<noteq> LOW" by simp
  have "clickCount (handleButton HIGH rn (?s\<lparr>clock := t\<rparr>)) =
      (if currentScreen (?s\<lparr>clock := t\<rparr>) = 1
          \<and> selectedLevel (?s\<lparr>clock := t\<rparr>) \<le> unlockedLevel (?s\<lparr>clock := t\<rparr>)
       then clickCount (?s\<lparr>clock := t\<rparr>)
       else if (currentScreen (?s\<lparr>clock := t\<rparr>) = 0 \<or> currentScreen (?s\<lparr>clock := t\<rparr>) = 1)
               \<and> 0 < clickCount (?s\<lparr>clock := t\<rparr>)
               \<and> CLICK_WINDOW_MS < clock (?s\<lparr>clock := t\<rparr>) - lastClickTime (?s\<lparr>clock := t\<rparr>)
       then 0 else clickCount (?s\<lparr>clock := t\<rparr>))"
    using assms(3) assms(4) hl handleButton_long_press_clickCount [of HIGH "?s\<lparr>clock := t\<rparr>" rn]
    by simp
  with z have a: "clickCount (handleButton HIGH rn (?s\<lparr>clock := t\<rparr>)) = 0" by simp
  then have b: "clickCount (tick (t, \<lparr>btnPin = HIGH, potRaw = p, rndTarget = rn\<rparr>) ?s) = 0"
    by (simp add: tick_def loop_clickCount)
  from a b show ?thesis
    by (simp add: handleButton_window_fields)
qed

theorem long_press_clears_click_count_witness:
  "prompt (setup_board 321 boot) dense_hold
   \<and> 1920 - clock (run dense_hold (setup_board 321 boot)) \<le> 99
   \<and> edgeConfirmed HIGH ((run dense_hold (setup_board 321 boot))\<lparr>clock := 1920\<rparr>)
   \<and> LONG_PRESS_MS \<le> 1920 - btnDownAt (run dense_hold (setup_board 321 boot))
   \<and> currentScreen (run dense_hold (setup_board 321 boot)) = 1
   \<and> clickCount (handleButton HIGH 900
         ((run dense_hold (setup_board 321 boot))\<lparr>clock := 1920\<rparr>)) = 0
   \<and> clickCount (tick (1920, \<lparr>btnPin = HIGH, potRaw = 500, rndTarget = 900\<rparr>)
         (run dense_hold (setup_board 321 boot))) = 0
   \<and> (currentScreen (run three_clicks power_up) = 0 \<or> currentScreen (run three_clicks power_up) = 1)
   \<and> 0 < clickCount (run three_clicks power_up)
   \<and> CLICK_WINDOW_MS < 2140 - lastClickTime (run three_clicks power_up)
   \<and> clickCount (handleButton_window 2140 (run three_clicks power_up)) = 0"
proof -
  let ?s = "run dense_hold (setup_board 321 boot)"
  let ?u = "run three_clicks power_up"
  have a: "prompt (setup_board 321 boot) dense_hold" by code_simp
  have b: "1920 - clock ?s \<le> 99" by code_simp
  have c: "edgeConfirmed HIGH (?s\<lparr>clock := 1920\<rparr>)" by code_simp
  have d: "LONG_PRESS_MS \<le> 1920 - btnDownAt ?s" by code_simp
  have e: "currentScreen ?s = 1" by code_simp
  then have e': "currentScreen ?s = 1 \<or> (currentScreen ?s = 0 \<and> 6000 \<le> 1920 - lastActivity ?s)"
    by (rule disjI1)
  have h: "currentScreen ?u = 0 \<or> currentScreen ?u = 1" by code_simp
  have i: "0 < clickCount ?u" by code_simp
  have j: "CLICK_WINDOW_MS < 2140 - lastClickTime ?u" by code_simp
  from a b c d e h i j long_press_clears_click_count [OF a b c d e', of 900 500 ?u 2140]
  show ?thesis by blast
qed

subsection \<open>Runs from power-up\<close>

text \<open>
  Claim C1 does not hold of the sketch. In the run \<open>win_level1\<close> the reading accepted at
  2500 equals the target and scores band 5; the win window is open until 7500, yet
  \<^verbatim>\<open>currentScreen\<close> is still 2 (inGame) and not 3 (winAnim). No statement of the sketch
  assigns 3 to \<^verbatim>\<open>currentScreen\<close> (\<open>loop_never_winAnim\<close>).
\<close>

theorem win_keeps_screen_inGame:
  "currentScreen (run enter_level1 power_up) = 2
   \<and> roundTarget (run enter_level1 power_up) = 900
   \<and> stableValue (run win_level1 power_up) = 900
   \<and> diffToState \<bar>stableValue (run win_level1 power_up) - roundTarget (run win_level1 power_up)\<bar>
        (winWindow (lvl (selectedLevel (run win_level1 power_up)))) = 5
   \<and> lcdLine1 (run win_level1 power_up) = ''Correct! YAY YAY YAYYY Unlocked''
   \<and> winAnimActive (run win_level1 power_up)
   \<and> clock (run win_level1 power_up) = 2500
   \<and> winAnimEnd (run win_level1 power_up) = 7500
   \<and> currentScreen (run win_level1 power_up) = 2
   \<and> currentScreen (run win_level1 power_up) \<noteq> 3"
  by code_simp

text \<open>
  Claim C2 does not hold of the sketch. In the run \<open>enter_level1\<close> the potentiometer rests
  at 500 from the first poll on; its last change is recorded at 100 and it was reported
  stable before the level is entered. The poll at 1930 enters level 1 and, in the same poll,
  accepts 500 again as a reading of the new session (message, LEDs and tone of band 2),
  although nothing changed after the entry.
\<close>

theorem level_entry_accepts_stale_reading:
  "potStable (run hold_level1 power_up)
   \<and> stableValue (run hold_level1 power_up) = 500
   \<and> potChangedAt (run hold_level1 power_up) = 100
   \<and> currentScreen (run hold_level1 power_up) = 1
   \<and> lcdLine1 (run hold_level1 power_up) = ''Long press to enter''
   \<and> currentScreen (run enter_level1 power_up) = 2
   \<and> levelStartedAt (run enter_level1 power_up) = 1930
   \<and> clock (run enter_level1 power_up) = 1930
   \<and> potChangedAt (run enter_level1 power_up) = 100
   \<and> potStable (run enter_level1 power_up)
   \<and> lcdLine1 (run enter_level1 power_up) = ''Getting closer :D D:400''
   \<and> toneOnFreq (run enter_level1 power_up) = 300
   \<and> leds (run enter_level1 power_up) = [False, True, False, False, False, False]"
  by code_simp

text \<open>
  Claim C6 does not hold of the sketch. In the run \<open>win_level2\<close> level 2 is won at 27500 while
  \<open>unlockedLevel\<close> is 2, so the win is on the frontier. Because the screen stays inGame after
  a win, the level timer of the won session still runs: it expires at 29400, inside the win
  window, and returns to the welcome screen, where one click selects level 1. When the window
  closes at 32500 the sketch compares \<open>unlockedLevel\<close> with that new selection, and level 3 is
  not unlocked.
\<close>

theorem win_on_frontier_without_unlock:
  "unlockedLevel (run (win_level1 @ [poll 7500 HIGH 900]) power_up) = 2
   \<and> selectedLevel (run win_level2 power_up) = 2
   \<and> unlockedLevel (run win_level2 power_up) = 2
   \<and> diffToState \<bar>stableValue (run win_level2 power_up) - roundTarget (run win_level2 power_up)\<bar>
        (winWindow (lvl (selectedLevel (run win_level2 power_up)))) = 5
   \<and> winAnimActive (run win_level2 power_up)
   \<and> winAnimEnd (run win_level2 power_up) = 32500
   \<and> currentScreen (run win_level2 power_up) = 2
   \<and> currentScreen (run (win_level2 @ [poll 29400 HIGH 900]) power_up) = 0
   \<and> winAnimActive (run (win_level2 @ [poll 29400 HIGH 900]) power_up)
   \<and> selectedLevel (run reselect_in_window power_up) = 1
   \<and> winAnimActive (run reselect_in_window power_up)
   \<and> \<not> winAnimActive (tick (poll 32500 HIGH 900) (run reselect_in_window power_up))
   \<and> currentScreen (tick (poll 32500 HIGH 900) (run reselect_in_window power_up)) = 0
   \<and> unlockedLevel (tick (poll 32500 HIGH 900) (run reselect_in_window power_up)) = 2"
  by code_simp

end
